theory Spec2Isabelle
  imports Main "HOL-Library.Word" "HOL-Library.Log_Nat"
begin

unbundle bit_operations_syntax

section \<open>Data model of GrContext.cpp\<close>

text \<open>
  The translation unit \<^verbatim>\<open>src/gpu/GrContext.cpp\<close> drives three collaborators whose
  classes are declared elsewhere: the device (\<^verbatim>\<open>GrGpu\<close>), the resource cache
  (\<^verbatim>\<open>GrResourceCache\<close>) and the deferred draw buffer (\<^verbatim>\<open>GrInOrderDrawBuffer\<close>).
  The context is a record that is passed through every operation and returned updated.
  Every call the context makes on a collaborator is appended to the field \<open>trace\<close>,
  oldest call first, so that the order of lookups, flushes and device calls can be stated.
\<close>

subsection \<open>Scalars, flags and enums\<close>

text \<open>
  \<^verbatim>\<open>SkScalar\<close> is a float: a finite value, an infinity or a NaN. The sign of a zero is
  not kept (the two zeros compare equal, and nothing here divides). \<open>scalarEq\<close> and
  \<open>scalarLe\<close> are the comparisons \<^verbatim>\<open>==\<close> and \<^verbatim>\<open><=\<close> of floats, which are false as soon as a
  side is a NaN; \<^verbatim>\<open>!=\<close> is the negation of \<^verbatim>\<open>==\<close>.
\<close>

datatype SkScalar = Finite real | PosInfinity | NegInfinity | NaN




type_synonym GrColor = "32 word"
type_synonym GrTextureFlags = "32 word"

text \<open>
  The flag bits of \<^verbatim>\<open>GrTextureFlags\<close>, \<^verbatim>\<open>PixelOpsFlags\<close> and \<^verbatim>\<open>FlushBits\<close> are
  enumerators of headers outside the translation unit; each is a single bit, and the bits
  of one enum are distinct.
\<close>

definition kRenderTarget_GrTextureFlagBit :: GrTextureFlags where
  "kRenderTarget_GrTextureFlagBit = 1"

definition kNoStencil_GrTextureFlagBit :: GrTextureFlags where
  "kNoStencil_GrTextureFlagBit = 2"

definition kDontFlush_PixelOpsFlag :: "32 word" where
  "kDontFlush_PixelOpsFlag = 1"

definition kUnpremul_PixelOpsFlag :: "32 word" where
  "kUnpremul_PixelOpsFlag = 2"

definition kForceCurrentRenderTarget_FlushBit :: "32 word" where
  "kForceCurrentRenderTarget_FlushBit = 1"

definition kDiscard_FlushBit :: "32 word" where
  "kDiscard_FlushBit = 2"

datatype GrPixelConfig =
    kUnknown_GrPixelConfig
  | kRGBA_8888_GrPixelConfig
  | kBGRA_8888_GrPixelConfig
  | kOther_GrPixelConfig nat

datatype ScratchTexMatch = kExact_ScratchTexMatch | kApprox_ScratchTexMatch

datatype BufferedDraw = kYes_BufferedDraw | kNo_BufferedDraw

datatype GrPathFill = kWinding_GrPathFill | kEvenOdd_GrPathFill | kHairLine_GrPathFill

datatype GrDrawTarget = TargetDrawBuffer | TargetGpu

datatype VertexEdgeType = kHairLine_EdgeType | kCircle_EdgeType

record GrTextureDesc =
  fFlags :: GrTextureFlags
  fWidth :: int
  fHeight :: int
  fConfig :: GrPixelConfig

subsection \<open>Draw state and paint\<close>

record GrTexture =
  texHandle :: nat
  texDesc :: GrTextureDesc

record GrRenderTarget =
  rtHandle :: nat
  rtConfig :: GrPixelConfig
  rtWidth :: int
  rtHeight :: int
  rtIsMultisampled :: bool
  rtAsTexture :: "GrTexture option"

record GrSamplerState =
  fCustomStage :: "nat option"
  fSamplerParams :: nat

record SkMatrix =
  kMScaleX :: SkScalar
  kMSkewX :: SkScalar
  kMTransX :: SkScalar
  kMSkewY :: SkScalar
  kMScaleY :: SkScalar
  kMTransY :: SkScalar
  kMPersp0 :: SkScalar
  kMPersp1 :: SkScalar
  kMPersp2 :: SkScalar

record GrDrawState =
  fSamplerStates :: "nat \<Rightarrow> GrSamplerState"
  fFirstCoverageStage :: nat
  fStateColor :: GrColor
  kDither_StateBit :: bool
  kHWAntialias_StateBit :: bool
  kColorMatrix_StateBit :: bool
  fStateColorMatrix :: "int list"
  fSrcBlend :: nat
  fDstBlend :: nat
  fStateColorFilterColor :: GrColor
  fStateColorFilterXfermode :: nat
  fStateCoverage :: "8 word"
  fViewMatrix :: SkMatrix
  fRenderTarget :: "GrRenderTarget option"
  fVertexEdgeType :: VertexEdgeType

record GrPaint =
  fTextureSamplers :: "nat \<Rightarrow> GrSamplerState"
  fMaskSamplers :: "nat \<Rightarrow> GrSamplerState"
  fColor :: GrColor
  fDither :: bool
  fAntiAlias :: bool
  fColorMatrixEnabled :: bool
  fColorMatrix :: "int list"
  fSrcBlendCoeff :: nat
  fDstBlendCoeff :: nat
  fColorFilterColor :: GrColor
  fColorFilterXfermode :: nat
  fCoverage :: "8 word"

text \<open>
  The stage counts and offsets (\<^verbatim>\<open>GrPaint::kMaxTextures\<close>, \<^verbatim>\<open>kFirstTextureStage\<close>,
  \<^verbatim>\<open>kMaxMasks\<close>, \<^verbatim>\<open>kFirstMaskStage\<close>, \<^verbatim>\<open>kTotalStages\<close> and
  \<^verbatim>\<open>GrDrawState::kNumStages\<close>) are enumerators of \<^verbatim>\<open>GrPaint.h\<close> and
  \<^verbatim>\<open>GrDrawState.h\<close>; \<open>setPaint\<close> takes them as a parameter.
\<close>

record StageLayout =
  kMaxTextures :: nat
  kFirstTextureStage :: nat
  kMaxMasks :: nat
  kFirstMaskStage :: nat
  kTotalStages :: nat
  kNumStages :: nat

text \<open>A paint stage is enabled when its sampler carries a custom stage.\<close>

definition isTextureStageEnabled :: "GrPaint \<Rightarrow> nat \<Rightarrow> bool" where
  "isTextureStageEnabled paint i = (fCustomStage (fTextureSamplers paint i) \<noteq> None)"

definition isMaskStageEnabled :: "GrPaint \<Rightarrow> nat \<Rightarrow> bool" where
  "isMaskStageEnabled paint i = (fCustomStage (fMaskSamplers paint i) \<noteq> None)"

definition disableStage :: "nat \<Rightarrow> GrDrawState \<Rightarrow> GrDrawState" where
  "disableStage s ds =
     ds\<lparr>fSamplerStates := (fSamplerStates ds)(s := (fSamplerStates ds s)\<lparr>fCustomStage := None\<rparr>)\<rparr>"

text \<open>The three loops of \<^verbatim>\<open>GrContext::setPaint\<close>, each over its list of indices.\<close>

fun setPaintTextures :: "StageLayout \<Rightarrow> GrPaint \<Rightarrow> nat list \<Rightarrow> GrDrawState \<Rightarrow> GrDrawState" where
  "setPaintTextures L paint [] ds = ds"
| "setPaintTextures L paint (i # is) ds =
     setPaintTextures L paint is
       (if isTextureStageEnabled paint i
        then ds\<lparr>fSamplerStates :=
                  (fSamplerStates ds)(i + kFirstTextureStage L := fTextureSamplers paint i)\<rparr>
        else ds)"

fun setPaintMasks :: "StageLayout \<Rightarrow> GrPaint \<Rightarrow> nat list \<Rightarrow> GrDrawState \<Rightarrow> GrDrawState" where
  "setPaintMasks L paint [] ds = ds"
| "setPaintMasks L paint (i # is) ds =
     setPaintMasks L paint is
       (if isMaskStageEnabled paint i
        then ds\<lparr>fSamplerStates :=
                  (fSamplerStates ds)(i + kFirstMaskStage L := fMaskSamplers paint i)\<rparr>
        else ds)"

fun disableStages :: "nat list \<Rightarrow> GrDrawState \<Rightarrow> GrDrawState" where
  "disableStages [] ds = ds"
| "disableStages (s # ss) ds = disableStages ss (disableStage s ds)"

text \<open>
  \<^verbatim>\<open>GrContext::setPaint\<close> on the draw state. The entry assertion
  \<^verbatim>\<open>GrAssert(fDrawState->stagesDisabled())\<close> is compiled out unless \<^verbatim>\<open>GR_DEBUG\<close> is set,
  and the block under \<^verbatim>\<open>GR_DEBUG_PARTIAL_COVERAGE_CHECK\<close> (defined as 0) is never compiled.
\<close>

definition setPaintState :: "StageLayout \<Rightarrow> GrPaint \<Rightarrow> GrDrawState \<Rightarrow> GrDrawState" where
  "setPaintState L paint ds0 =
     (let ds1 = setPaintTextures L paint [0 ..< kMaxTextures L] ds0;
          ds2 = ds1\<lparr>fFirstCoverageStage := kFirstMaskStage L\<rparr>;
          ds3 = setPaintMasks L paint [0 ..< kMaxMasks L] ds2;
          ds4 = disableStages [kTotalStages L ..< kNumStages L] ds3;
          ds5 = ds4\<lparr>fStateColor := fColor paint\<rparr>;
          ds6 = ds5\<lparr>kDither_StateBit := fDither paint\<rparr>;
          ds7 = ds6\<lparr>kHWAntialias_StateBit := fAntiAlias paint\<rparr>;
          ds8 = (if fColorMatrixEnabled paint
                 then ds7\<lparr>kColorMatrix_StateBit := True, fStateColorMatrix := fColorMatrix paint\<rparr>
                 else ds7\<lparr>kColorMatrix_StateBit := False\<rparr>);
          ds9 = ds8\<lparr>fSrcBlend := fSrcBlendCoeff paint, fDstBlend := fDstBlendCoeff paint\<rparr>;
          ds10 = ds9\<lparr>fStateColorFilterColor := fColorFilterColor paint,
                      fStateColorFilterXfermode := fColorFilterXfermode paint\<rparr>
      in ds10\<lparr>fStateCoverage := fCoverage paint\<rparr>)"

subsection \<open>Collaborators: resource cache, device, draw buffer\<close>

text \<open>
  A resource key is computed by \<^verbatim>\<open>GrTexture::ComputeKey\<close> from the descriptor and the
  scratch discriminator; a scratch key is looked up with no sampler parameters.
\<close>

type_synonym GrResourceKey = "GrTextureDesc \<times> bool"

text \<open>
  Modelled from the spec: \<^verbatim>\<open>GrTexture::ComputeKey\<close> and \<^verbatim>\<open>GrTexture::IsScratchTexture\<close>
  are not in the translation unit. The content key is derived from dimensions, pixel
  format, creation flags and the scratch/permanent discriminator.
\<close>

definition ComputeKey :: "GrTextureDesc \<Rightarrow> bool \<Rightarrow> GrResourceKey" where
  "ComputeKey desc scratch = (desc, scratch)"


record GrResourceEntry =
  entryKey :: GrResourceKey
  entryResource :: nat
  entryLockCount :: nat
  entryBytes :: nat

record GrResourceCache =
  fAttached :: "GrResourceEntry list"
  fDetached :: "GrResourceEntry list"
  fMaxCount :: nat
  fMaxBytes :: nat

text \<open>
  Modelled from the spec: \<^verbatim>\<open>GrResourceCache\<close> is not in the translation unit.
  \<open>fAttached\<close> is the lookup index, most recently used entry first; \<open>fDetached\<close>
  holds the entries checked out of the index. \<open>findAndLock\<close> (nested lock type, the only
  one the scratch allocator uses) increments the lock count and returns a matching resource
  if present; a miss returns \<open>None\<close> and leaves the cache as it is.
\<close>

definition findAndLock :: "GrResourceKey \<Rightarrow> GrResourceCache \<Rightarrow> nat option \<times> GrResourceCache" where
  "findAndLock key c =
     (case find (\<lambda>e. entryKey e = key) (fAttached c) of
        None \<Rightarrow> (None, c)
      | Some e \<Rightarrow>
          (Some (entryResource e),
           c\<lparr>fAttached := e\<lparr>entryLockCount := Suc (entryLockCount e)\<rparr> # remove1 e (fAttached c)\<rparr>))"

text \<open>
  Modelled from the spec: budget enforcement. The totals are those of the attached
  entries; unlocked entries are evicted oldest first until the cache is within budget, and
  the entry that was just added is skipped.
\<close>

definition withinBudget :: "GrResourceCache \<Rightarrow> GrResourceEntry list \<Rightarrow> bool" where
  "withinBudget c es = (length es \<le> fMaxCount c \<and> sum_list (map entryBytes es) \<le> fMaxBytes c)"

fun evict :: "GrResourceCache \<Rightarrow> nat \<Rightarrow> GrResourceEntry list \<Rightarrow> GrResourceEntry list \<Rightarrow> GrResourceEntry list" where
  "evict c skip [] es = es"
| "evict c skip (e # candidates) es =
     (if withinBudget c es then es
      else if entryLockCount e = 0 \<and> entryResource e \<noteq> skip
           then evict c skip candidates (remove1 e es)
           else evict c skip candidates es)"

definition createAndLock :: "GrResourceKey \<Rightarrow> nat \<Rightarrow> nat \<Rightarrow> GrResourceCache \<Rightarrow> GrResourceCache" where
  "createAndLock key resource bytes c =
     (let es = \<lparr>entryKey = key, entryResource = resource, entryLockCount = 1,
                entryBytes = bytes\<rparr> # fAttached c
      in c\<lparr>fAttached := evict c resource (rev es) es\<rparr>)"

text \<open>
  Modelled from the spec: detach removes the resource from the lookup structure without
  destroying it or changing its lock count; reattach reinserts it; unlock decrements the
  lock count and leaves the entry attached.
\<close>

definition detach :: "nat \<Rightarrow> GrResourceCache \<Rightarrow> GrResourceCache" where
  "detach resource c =
     c\<lparr>fAttached := filter (\<lambda>e. entryResource e \<noteq> resource) (fAttached c),
       fDetached := filter (\<lambda>e. entryResource e = resource) (fAttached c) @ fDetached c\<rparr>"




text \<open>
  The device. \<open>fNextHandle\<close> is the handle of the next object it allocates; the other
  fields are the answers of the device to the queries the context makes.
\<close>

record GrGpu =
  fNextHandle :: nat
  createTextureSucceeds :: "GrTextureDesc \<Rightarrow> bool"
  textureSizeInBytes :: "GrTextureDesc \<Rightarrow> nat"
  canPreserveReadWriteUnpremulPixels :: bool
  preferredReadPixelsConfig :: "GrPixelConfig \<Rightarrow> GrPixelConfig"
  readPixelsWillPayForYFlip :: bool
  fullReadPixelsIsFasterThanPartial :: bool
  readPixelsSucceeds :: bool
  canApplyCoverage :: bool
  deviceCoordDrawSucceeds :: bool
  reserveGeometrySucceeds :: bool
  fGpuClip :: nat

record PixelArgs =
  pxLeft :: int
  pxTop :: int
  pxWidth :: int
  pxHeight :: int
  pxConfig :: GrPixelConfig
  pxBuffer :: nat
  pxRowBytes :: nat

record GrRect =
  fLeft :: SkScalar
  fTop :: SkScalar
  fRight :: SkScalar
  fBottom :: SkScalar

datatype SkPath = OvalPath GrRect | GeneralPath nat

datatype GrPathRenderer = ChainRenderer nat | SoftwarePathRenderer

text \<open>
  Modelled from the spec: \<^verbatim>\<open>GrInOrderDrawBuffer\<close> is not in the translation unit. It holds
  the recorded commands in call order. Replaying a command that needs an antialiased clip
  mask runs the software path renderer, which uploads the mask through the context
  (\<open>writeTexturePixels\<close>) and so requests a flush while the flush is in progress.
\<close>

datatype GrDrawCmd =
    CmdDraw nat
  | CmdDrawWithClipMask nat nat PixelArgs

record GrInOrderDrawBuffer =
  fCmds :: "GrDrawCmd list"
  fBufferClip :: nat

datatype Call =
    CacheFindAndLock GrResourceKey
  | CacheCreateAndLock GrResourceKey nat
  | CacheDetach nat
  | CacheReattachAndUnlock nat
  | CacheUnlock nat
  | GpuCreateTexture GrTextureDesc
  | GpuWriteTexturePixels nat PixelArgs
  | GpuReadPixels nat PixelArgs bool
  | GpuDrawSimpleRect nat
  | GpuDrawNonIndexed
  | GpuExecute nat
  | GpuForceRenderTargetFlush
  | BufFlushTo
  | BufReset
  | BufSetClip nat
  | BufRecord nat
  | RendererDrawPath GrPathRenderer SkPath GrPathFill "(SkScalar \<times> SkScalar) option" GrDrawTarget bool

record GrContext =
  fGpu :: GrGpu
  fDrawState :: GrDrawState
  fTextureCache :: GrResourceCache
  fDrawBuffer :: "GrInOrderDrawBuffer option"
  fLastDrawWasBuffered :: BufferedDraw
  fPathRendererChain :: "unit option"
  fSoftwarePathRenderer :: "unit option"
  chainGetPathRenderer :: "SkPath \<Rightarrow> GrPathFill \<Rightarrow> GrDrawTarget \<Rightarrow> bool \<Rightarrow> GrPathRenderer option"
  stageLayout :: StageLayout
  DEFAULT_BUFFERING :: BufferedDraw
  trace :: "Call list"

definition call :: "Call \<Rightarrow> GrContext \<Rightarrow> GrContext" where
  "call ev ctx = ctx\<lparr>trace := trace ctx @ [ev]\<rparr>"

text \<open>
  A null pointer is \<open>None\<close>; dereferencing it is the failure \<open>NullDereference\<close>.
  The flush of the draw buffer can be requested again from inside the flush (see
  \<open>flushDrawBuffer\<close>); the recursion is bounded by fuel, and \<open>OutOfFuel\<close> is the value
  of a call that would need deeper recursion than the fuel allows.
\<close>

datatype failure = OutOfFuel | NullDereference

section \<open>Flushing and pixel writes\<close>

text \<open>
  Modelled from the spec: \<^verbatim>\<open>GrInOrderDrawBuffer::flushTo\<close> is not in the translation
  unit; \<open>flushTo\<close> and \<open>replay\<close> are the strict FIFO replay of the recorded commands to
  the device, after which the recording is cleared. The other three functions are
  \<^verbatim>\<open>GrContext::flushDrawBuffer\<close>, \<^verbatim>\<open>GrContext::flush\<close> and
  \<^verbatim>\<open>GrContext::writeTexturePixels\<close> of the source. The first argument is the fuel; it
  is consumed only where \<open>flushDrawBuffer\<close> hands a live buffer to \<open>flushTo\<close>.
\<close>

fun flushDrawBuffer :: "nat \<Rightarrow> GrContext \<Rightarrow> failure + GrContext"
and flushTo :: "nat \<Rightarrow> GrInOrderDrawBuffer \<Rightarrow> GrContext \<Rightarrow> failure + GrInOrderDrawBuffer \<times> GrContext"
and replay :: "nat \<Rightarrow> GrDrawCmd list \<Rightarrow> GrContext \<Rightarrow> failure + GrContext"
and flush :: "nat \<Rightarrow> 32 word \<Rightarrow> GrContext \<Rightarrow> failure + GrContext"
and writeTexturePixels :: "nat \<Rightarrow> nat \<Rightarrow> PixelArgs \<Rightarrow> 32 word \<Rightarrow> GrContext \<Rightarrow> failure + GrContext"
where
  "flushDrawBuffer n ctx =
     (case fDrawBuffer ctx of
        None \<Rightarrow> Inr ctx
      | Some temp \<Rightarrow>
          (case n of
             0 \<Rightarrow> Inl OutOfFuel
           | Suc m \<Rightarrow>
               (case flushTo m temp (ctx\<lparr>fDrawBuffer := None\<rparr>) of
                  Inl e \<Rightarrow> Inl e
                | Inr (temp', ctx') \<Rightarrow> Inr (ctx'\<lparr>fDrawBuffer := Some temp'\<rparr>))))"
| "flushTo n buf ctx =
     (case replay n (fCmds buf) (call BufFlushTo ctx) of
        Inl e \<Rightarrow> Inl e
      | Inr ctx' \<Rightarrow> Inr (buf\<lparr>fCmds := []\<rparr>, ctx'))"
| "replay n [] ctx = Inr ctx"
| "replay n (CmdDraw d # cmds) ctx = replay n cmds (call (GpuExecute d) ctx)"
| "replay n (CmdDrawWithClipMask d tex args # cmds) ctx =
     (case writeTexturePixels n tex args 0 ctx of
        Inl e \<Rightarrow> Inl e
      | Inr ctx' \<Rightarrow> replay n cmds (call (GpuExecute d) ctx'))"
| "flush n flagsBitfield ctx =
     (case (if kDiscard_FlushBit AND flagsBitfield \<noteq> 0
            then (case fDrawBuffer ctx of
                    None \<Rightarrow> Inl NullDereference
                  | Some buf \<Rightarrow> Inr (call BufReset (ctx\<lparr>fDrawBuffer := Some (buf\<lparr>fCmds := []\<rparr>)\<rparr>)))
            else flushDrawBuffer n ctx) of
        Inl e \<Rightarrow> Inl e
      | Inr ctx' \<Rightarrow>
          Inr (if kForceCurrentRenderTarget_FlushBit AND flagsBitfield \<noteq> 0
               then call GpuForceRenderTargetFlush ctx' else ctx'))"
| "writeTexturePixels n texture args flags ctx =
     (if kUnpremul_PixelOpsFlag AND flags \<noteq> 0 then Inr ctx
      else (case (if kDontFlush_PixelOpsFlag AND flags = 0 then flush n 0 ctx else Inr ctx) of
              Inl e \<Rightarrow> Inl e
            | Inr ctx' \<Rightarrow> Inr (call (GpuWriteTexturePixels texture args) ctx')))"

section \<open>Paint application and draw preparation\<close>

definition setPaint :: "GrPaint \<Rightarrow> GrContext \<Rightarrow> GrContext" where
  "setPaint paint ctx = ctx\<lparr>fDrawState := setPaintState (stageLayout ctx) paint (fDrawState ctx)\<rparr>"

text \<open>
  The sampler array that \<open>setPaintState\<close> leaves, slot by slot: the texture loop, then the
  mask loop, then the loop that disables the stages a paint cannot reach.
\<close>

definition paintSamplers :: "StageLayout \<Rightarrow> GrPaint \<Rightarrow> (nat \<Rightarrow> GrSamplerState) \<Rightarrow> nat \<Rightarrow> GrSamplerState" where
  "paintSamplers L p old s =
     (let a = (if kFirstTextureStage L \<le> s \<and> s - kFirstTextureStage L < kMaxTextures L
                   \<and> isTextureStageEnabled p (s - kFirstTextureStage L)
               then fTextureSamplers p (s - kFirstTextureStage L) else old s);
          b = (if kFirstMaskStage L \<le> s \<and> s - kFirstMaskStage L < kMaxMasks L
                   \<and> isMaskStageEnabled p (s - kFirstMaskStage L)
               then fMaskSamplers p (s - kFirstMaskStage L) else a)
      in if kTotalStages L \<le> s \<and> s < kNumStages L then b\<lparr>fCustomStage := None\<rparr> else b)"

text \<open>
  \<^verbatim>\<open>GrContext::prepareToDraw\<close>. \<^verbatim>\<open>fDrawBuffer->setClip\<close> dereferences the draw-buffer
  member.
\<close>

definition prepareToDraw :: "nat \<Rightarrow> GrPaint option \<Rightarrow> BufferedDraw \<Rightarrow> GrContext \<Rightarrow> failure + GrDrawTarget \<times> GrContext" where
  "prepareToDraw n paint buffered ctx =
     (case (if buffered = kNo_BufferedDraw \<and> fLastDrawWasBuffered ctx = kYes_BufferedDraw
            then (case flushDrawBuffer n ctx of
                    Inl e \<Rightarrow> Inl e
                  | Inr c \<Rightarrow> Inr (c\<lparr>fLastDrawWasBuffered := kNo_BufferedDraw\<rparr>))
            else Inr ctx) of
        Inl e \<Rightarrow> Inl e
      | Inr ctx1 \<Rightarrow>
          (let ctx2 = (case paint of None \<Rightarrow> ctx1 | Some p \<Rightarrow> setPaint p ctx1)
           in if buffered = kYes_BufferedDraw
              then (case fDrawBuffer ctx2 of
                      None \<Rightarrow> Inl NullDereference
                    | Some buf \<Rightarrow>
                        Inr (TargetDrawBuffer,
                             call (BufSetClip (fGpuClip (fGpu ctx2)))
                               (ctx2\<lparr>fDrawBuffer := Some (buf\<lparr>fBufferClip := fGpuClip (fGpu ctx2)\<rparr>),
                                     fLastDrawWasBuffered := kYes_BufferedDraw\<rparr>)))
              else Inr (TargetGpu, ctx2)))"

text \<open>The calls a replayed command makes while no draw buffer is live, and the number of
  \<open>flushTo\<close> calls in a trace.\<close>

fun cmdCalls :: "GrDrawCmd \<Rightarrow> Call list" where
  "cmdCalls (CmdDraw d) = [GpuExecute d]"
| "cmdCalls (CmdDrawWithClipMask d tex args) = [GpuWriteTexturePixels tex args, GpuExecute d]"

definition flushCount :: "GrContext \<Rightarrow> nat" where
  "flushCount ctx = count_list (trace ctx) BufFlushTo"

section \<open>Scratch textures\<close>

text \<open>
  Modelled from the spec: \<^verbatim>\<open>GrNextPow2\<close> (a helper of \<^verbatim>\<open>GrTypes.h\<close>) rounds up to the
  next power of two; it is defined for non-negative arguments.
\<close>

definition GrNextPow2 :: "int \<Rightarrow> int" where
  "GrNextPow2 n = (if n \<le> 1 then 1 else 2 ^ floorlog 2 (nat (n - 1)))"

definition MIN_SIZE :: int where
  "MIN_SIZE = 256"

text \<open>
  Modelled from the spec: \<^verbatim>\<open>GrGpu::createTexture\<close> returns a new texture carrying the
  requested descriptor, or null when the device cannot create it.
\<close>

definition createTexture :: "GrTextureDesc \<Rightarrow> GrGpu \<Rightarrow> GrTexture option \<times> GrGpu" where
  "createTexture desc gpu =
     (if createTextureSucceeds gpu desc
      then (Some \<lparr>texHandle = fNextHandle gpu, texDesc = desc\<rparr>,
            gpu\<lparr>fNextHandle := Suc (fNextHandle gpu)\<rparr>)
      else (None, gpu))"

text \<open>
  The width and the height of a descriptor are 32-bit \<^verbatim>\<open>int\<close>s. \<open>wrap32\<close> is the value
  a 32-bit two's-complement \<^verbatim>\<open>int\<close> holds after an arithmetic result that left its range
  (the language leaves signed overflow undefined; the compiled code wraps).
\<close>

definition wrap32 :: "int \<Rightarrow> int" where
  "wrap32 x = (x + 2147483648) mod 4294967296 - 2147483648"

text \<open>
  One pass through the \<^verbatim>\<open>if\<close>/\<^verbatim>\<open>else if\<close> chain at the end of the loop body of
  \<^verbatim>\<open>GrContext::lockScratchTexture\<close>, on the loop variables \<open>(desc, doubledW, doubledH)\<close>;
  \<open>None\<close> is the final \<^verbatim>\<open>break\<close>. The two doublings are done in 32-bit arithmetic.
\<close>

definition relaxDesc :: "GrTextureFlags \<Rightarrow> int \<Rightarrow> GrTextureDesc \<times> bool \<times> bool \<Rightarrow> (GrTextureDesc \<times> bool \<times> bool) option" where
  "relaxDesc inFlags origWidth st =
     (case st of (desc, doubledW, doubledH) \<Rightarrow>
        if fFlags desc AND kRenderTarget_GrTextureFlagBit = 0
        then Some (desc\<lparr>fFlags := fFlags desc OR kRenderTarget_GrTextureFlagBit\<rparr>, doubledW, doubledH)
        else if fFlags desc AND kNoStencil_GrTextureFlagBit \<noteq> 0
        then Some (desc\<lparr>fFlags := fFlags desc AND NOT kNoStencil_GrTextureFlagBit\<rparr>, doubledW, doubledH)
        else if \<not> doubledW
        then Some (desc\<lparr>fFlags := inFlags, fWidth := wrap32 (fWidth desc * 2)\<rparr>, True, doubledH)
        else if \<not> doubledH
        then Some (desc\<lparr>fFlags := inFlags, fWidth := origWidth,
                         fHeight := wrap32 (fHeight desc * 2)\<rparr>,
                   doubledW, True)
        else None)"

definition relaxMeasure :: "GrTextureDesc \<times> bool \<times> bool \<Rightarrow> nat" where
  "relaxMeasure st =
     (case st of (desc, doubledW, doubledH) \<Rightarrow>
        3 * ((if doubledW then 0 else 1) + (if doubledH then 0 else 1))
        + (if fFlags desc AND kRenderTarget_GrTextureFlagBit = 0 then 2
           else if fFlags desc AND kNoStencil_GrTextureFlagBit \<noteq> 0 then 1 else 0))"

text \<open>The \<^verbatim>\<open>do { ... } while (true)\<close> loop of \<^verbatim>\<open>lockScratchTexture\<close>.\<close>

function scratchLoop :: "ScratchTexMatch \<Rightarrow> GrTextureFlags \<Rightarrow> int \<Rightarrow> GrTextureDesc \<times> bool \<times> bool \<Rightarrow> GrContext \<Rightarrow> nat option \<times> GrContext" where
  "scratchLoop match inFlags origWidth st ctx =
     (let key = ComputeKey (fst st) True;
          found = findAndLock key (fTextureCache ctx);
          ctx1 = call (CacheFindAndLock key) (ctx\<lparr>fTextureCache := snd found\<rparr>)
      in if fst found \<noteq> None \<or> match = kExact_ScratchTexMatch then (fst found, ctx1)
         else (case relaxDesc inFlags origWidth st of
                 None \<Rightarrow> (fst found, ctx1)
               | Some st' \<Rightarrow> scratchLoop match inFlags origWidth st' ctx1))"
  by pat_completeness auto
termination
proof (relation "measure (\<lambda>(match, inFlags, origWidth, st, ctx). relaxMeasure st)")
  show "wf (measure (\<lambda>(match, inFlags, origWidth, st, ctx). relaxMeasure st))"
    by simp
next
  fix match :: ScratchTexMatch and inFlags :: GrTextureFlags and origWidth :: int
    and st st' :: "GrTextureDesc \<times> bool \<times> bool" and ctx ctx1 :: GrContext
  assume r: "relaxDesc inFlags origWidth st = Some st'"
  obtain desc dw dh where st: "st = (desc, dw, dh)"
    by (cases st) auto
  have a: "(f OR 1) AND 1 \<noteq> 0" for f :: "32 word"
    by simp
  have b: "(f AND - 3) AND 2 = 0" for f :: "32 word"
  proof -
    have "(- 3 :: 32 word) AND 2 = 0" by simp
    then show ?thesis by (simp add: and.assoc)
  qed
  have c: "(f AND - 3) AND 1 = f AND 1" for f :: "32 word"
  proof -
    have "(- 3 :: 32 word) AND 1 = 1" by simp
    then show ?thesis by (simp add: and.assoc)
  qed
  have "relaxMeasure st' < relaxMeasure st"
    using r unfolding st relaxDesc_def relaxMeasure_def
      kRenderTarget_GrTextureFlagBit_def kNoStencil_GrTextureFlagBit_def
    by (auto simp: a b c split: if_splits)
  then show "((match, inFlags, origWidth, st', ctx1), (match, inFlags, origWidth, st, ctx))
      \<in> measure (\<lambda>(match, inFlags, origWidth, st, ctx). relaxMeasure st)"
    by simp
qed

declare scratchLoop.simps [simp del]

text \<open>
  \<^verbatim>\<open>GrContext::lockScratchTexture\<close>. The loop changes the flags, the width and the
  height of \<^verbatim>\<open>desc\<close> and nothing else, and the source resets all three before it creates
  a texture; \<open>desc'\<close> is that reset descriptor.
\<close>

definition lockScratchTexture :: "GrTextureDesc \<Rightarrow> ScratchTexMatch \<Rightarrow> GrContext \<Rightarrow> nat option \<times> GrContext" where
  "lockScratchTexture inDesc match ctx =
     (let desc = (if match \<noteq> kExact_ScratchTexMatch
                  then inDesc\<lparr>fWidth := max MIN_SIZE (GrNextPow2 (fWidth inDesc)),
                               fHeight := max MIN_SIZE (GrNextPow2 (fHeight inDesc))\<rparr>
                  else inDesc);
          origWidth = fWidth desc;
          origHeight = fHeight desc;
          searched = scratchLoop match (fFlags inDesc) origWidth (desc, False, False) ctx;
          created =
            (case fst searched of
               Some r \<Rightarrow> (Some r, snd searched)
             | None \<Rightarrow>
                 (let desc' = desc\<lparr>fFlags := fFlags inDesc, fWidth := origWidth, fHeight := origHeight\<rparr>;
                      made = createTexture desc' (fGpu (snd searched));
                      ctx1 = call (GpuCreateTexture desc') ((snd searched)\<lparr>fGpu := snd made\<rparr>)
                  in case fst made of
                       None \<Rightarrow> (None, ctx1)
                     | Some texture \<Rightarrow>
                         (let key = ComputeKey (texDesc texture) True
                          in (Some (texHandle texture),
                              call (CacheCreateAndLock key (texHandle texture))
                                (ctx1\<lparr>fTextureCache :=
                                        createAndLock key (texHandle texture)
                                          (textureSizeInBytes (fGpu ctx1) (texDesc texture))
                                          (fTextureCache ctx1)\<rparr>)))))
      in case fst created of
           None \<Rightarrow> (None, snd created)
         | Some resource \<Rightarrow>
             (Some resource,
              call (CacheDetach resource)
                ((snd created)\<lparr>fTextureCache := detach resource (fTextureCache (snd created))\<rparr>)))"


section \<open>Pixel reads\<close>






section \<open>Ovals and paths\<close>











text \<open>
  \<^verbatim>\<open>GrContext::getPathRenderer\<close>. The chain and the software renderer are allocated with
  \<^verbatim>\<open>SkNEW_ARGS\<close>, which does not return null; what the chain selects is the context's
  \<open>chainGetPathRenderer\<close>.
\<close>

definition getPathRenderer :: "SkPath \<Rightarrow> GrPathFill \<Rightarrow> GrDrawTarget \<Rightarrow> bool \<Rightarrow> bool \<Rightarrow> GrContext \<Rightarrow> GrPathRenderer option \<times> GrContext" where
  "getPathRenderer path fill target antiAlias allowSW ctx =
     (let ctx1 = (if fPathRendererChain ctx = None then ctx\<lparr>fPathRendererChain := Some ()\<rparr> else ctx);
          pr = chainGetPathRenderer ctx1 path fill target antiAlias
      in if pr = None \<and> allowSW
         then (Some SoftwarePathRenderer,
               if fSoftwarePathRenderer ctx1 = None
               then ctx1\<lparr>fSoftwarePathRenderer := Some ()\<rparr> else ctx1)
         else (pr, ctx1))"

text \<open>
  The end of \<^verbatim>\<open>GrContext::internalDrawPath\<close>, from the test of the renderer on: a null
  renderer returns (the message is printed under \<^verbatim>\<open>GR_DEBUG\<close> only), any other draws.
\<close>

definition drawPathWith :: "GrPathRenderer option \<Rightarrow> SkPath \<Rightarrow> GrPathFill \<Rightarrow> (SkScalar \<times> SkScalar) option \<Rightarrow> GrDrawTarget \<Rightarrow> bool \<Rightarrow> GrContext \<Rightarrow> GrContext" where
  "drawPathWith pr path fill translate target prAA ctx =
     (case pr of
        None \<Rightarrow> ctx
      | Some r \<Rightarrow> call (RendererDrawPath r path fill translate target prAA) ctx)"

text \<open>
  The destructor of \<^verbatim>\<open>GrDrawState::AutoStageDisable\<close> disables every stage of the draw
  state when the scope is left.
\<close>

definition autoStageDisable :: "GrContext \<Rightarrow> GrContext" where
  "autoStageDisable ctx =
     ctx\<lparr>fDrawState := disableStages [0 ..< kNumStages (stageLayout ctx)] (fDrawState ctx)\<rparr>"

definition internalDrawPath :: "nat \<Rightarrow> GrPaint \<Rightarrow> SkPath \<Rightarrow> GrPathFill \<Rightarrow> (SkScalar \<times> SkScalar) option \<Rightarrow> GrContext \<Rightarrow> failure + GrContext" where
  "internalDrawPath n paint path fill translate ctx =
     (case prepareToDraw n (Some paint) (DEFAULT_BUFFERING ctx) ctx of
        Inl e \<Rightarrow> Inl e
      | Inr prepared \<Rightarrow>
          (let target = fst prepared; ctx1 = snd prepared
           in if fAntiAlias paint \<and> fRenderTarget (fDrawState ctx1) = None
              then Inl NullDereference
              else (let prAA0 = (case fRenderTarget (fDrawState ctx1) of
                                   None \<Rightarrow> False
                                 | Some rt \<Rightarrow> fAntiAlias paint \<and> \<not> rtIsMultisampled rt);
                        prAA = (if \<not> canApplyCoverage (fGpu ctx1) then False else prAA0);
                        got = getPathRenderer path fill target prAA True ctx1
                    in Inr (autoStageDisable
                              (drawPathWith (fst got) path fill translate target prAA (snd got))))))"



section \<open>Construction\<close>

definition MAX_TEXTURE_CACHE_COUNT :: nat where
  "MAX_TEXTURE_CACHE_COUNT = 256"

definition MAX_TEXTURE_CACHE_BYTES :: nat where
  "MAX_TEXTURE_CACHE_BYTES = 16 * 1024 * 1024"

definition identityMatrix :: SkMatrix where
  "identityMatrix =
     \<lparr>kMScaleX = Finite 1, kMSkewX = Finite 0, kMTransX = Finite 0,
      kMSkewY = Finite 0, kMScaleY = Finite 1, kMTransY = Finite 0,
      kMPersp0 = Finite 0, kMPersp1 = Finite 0, kMPersp2 = Finite 1\<rparr>"

definition noSampler :: GrSamplerState where
  "noSampler = \<lparr>fCustomStage = None, fSamplerParams = 0\<rparr>"

definition newDrawState :: GrDrawState where
  "newDrawState =
     \<lparr>fSamplerStates = (\<lambda>s. noSampler), fFirstCoverageStage = 0, fStateColor = 0,
      kDither_StateBit = False, kHWAntialias_StateBit = False, kColorMatrix_StateBit = False,
      fStateColorMatrix = [], fSrcBlend = 0, fDstBlend = 0, fStateColorFilterColor = 0,
      fStateColorFilterXfermode = 0, fStateCoverage = 255, fViewMatrix = identityMatrix,
      fRenderTarget = None, fVertexEdgeType = kHairLine_EdgeType\<rparr>"

text \<open>
  The context as \<^verbatim>\<open>GrContext::GrContext\<close> and \<^verbatim>\<open>setupDrawBuffer\<close> leave it: an empty
  cache with the default limits, an empty draw buffer, no path renderers, and the last draw
  marked unbuffered.
\<close>

definition newContext :: "GrGpu \<Rightarrow> StageLayout \<Rightarrow> BufferedDraw \<Rightarrow> (SkPath \<Rightarrow> GrPathFill \<Rightarrow> GrDrawTarget \<Rightarrow> bool \<Rightarrow> GrPathRenderer option) \<Rightarrow> GrContext" where
  "newContext gpu layout buffering chain =
     \<lparr>fGpu = gpu, fDrawState = newDrawState,
      fTextureCache = \<lparr>fAttached = [], fDetached = [], fMaxCount = MAX_TEXTURE_CACHE_COUNT,
                       fMaxBytes = MAX_TEXTURE_CACHE_BYTES\<rparr>,
      fDrawBuffer = Some \<lparr>fCmds = [], fBufferClip = fGpuClip gpu\<rparr>,
      fLastDrawWasBuffered = kNo_BufferedDraw,
      fPathRendererChain = None, fSoftwarePathRenderer = None,
      chainGetPathRenderer = chain, stageLayout = layout, DEFAULT_BUFFERING = buffering,
      trace = []\<rparr>"

text \<open>A device, a stage layout and a paint to run the operations on.\<close>

definition someGpu :: GrGpu where
  "someGpu =
     \<lparr>fNextHandle = 1, createTextureSucceeds = (\<lambda>desc. True),
      textureSizeInBytes = (\<lambda>desc. 4 * nat (fWidth desc) * nat (fHeight desc)),
      canPreserveReadWriteUnpremulPixels = True, preferredReadPixelsConfig = (\<lambda>config. config),
      readPixelsWillPayForYFlip = False, fullReadPixelsIsFasterThanPartial = False,
      readPixelsSucceeds = True, canApplyCoverage = True, deviceCoordDrawSucceeds = True,
      reserveGeometrySucceeds = True, fGpuClip = 0\<rparr>"

definition someLayout :: StageLayout where
  "someLayout =
     \<lparr>kMaxTextures = 2, kFirstTextureStage = 0, kMaxMasks = 1, kFirstMaskStage = 2,
      kTotalStages = 3, kNumStages = 5\<rparr>"

definition somePaint :: GrPaint where
  "somePaint =
     \<lparr>fTextureSamplers = (\<lambda>i. noSampler), fMaskSamplers = (\<lambda>i. noSampler), fColor = 255,
      fDither = False, fAntiAlias = True, fColorMatrixEnabled = False, fColorMatrix = [],
      fSrcBlendCoeff = 1, fDstBlendCoeff = 0, fColorFilterColor = 0, fColorFilterXfermode = 0,
      fCoverage = 255\<rparr>"

definition someContext :: GrContext where
  "someContext = newContext someGpu someLayout kYes_BufferedDraw (\<lambda>path fill target aa. None)"

definition someArgs :: PixelArgs where
  "someArgs =
     \<lparr>pxLeft = 0, pxTop = 0, pxWidth = 16, pxHeight = 16, pxConfig = kRGBA_8888_GrPixelConfig,
      pxBuffer = 0, pxRowBytes = 64\<rparr>"

text \<open>A context after buffered draws, and the same context while its buffer is being flushed.\<close>

definition busyBuffer :: GrInOrderDrawBuffer where
  "busyBuffer = \<lparr>fCmds = [CmdDraw 1, CmdDrawWithClipMask 2 7 someArgs, CmdDraw 3], fBufferClip = 0\<rparr>"

definition busyContext :: GrContext where
  "busyContext = someContext\<lparr>fDrawBuffer := Some busyBuffer, fLastDrawWasBuffered := kYes_BufferedDraw\<rparr>"

definition flushingContext :: GrContext where
  "flushingContext = busyContext\<lparr>fDrawBuffer := None\<rparr>"





section \<open>The relaxation search, stated\<close>

text \<open>The keys passed to \<open>findAndLock\<close> in a trace, in order.\<close>

fun lookupsOf :: "Call list \<Rightarrow> GrResourceKey list" where
  "lookupsOf [] = []"
| "lookupsOf (CacheFindAndLock key # calls) = key # lookupsOf calls"
| "lookupsOf (c # calls) = lookupsOf calls"

text \<open>The descriptor the search starts from: binned in approximate mode.\<close>

definition binDesc :: "ScratchTexMatch \<Rightarrow> GrTextureDesc \<Rightarrow> GrTextureDesc" where
  "binDesc match inDesc =
     (if match \<noteq> kExact_ScratchTexMatch
      then inDesc\<lparr>fWidth := max MIN_SIZE (GrNextPow2 (fWidth inDesc)),
                   fHeight := max MIN_SIZE (GrNextPow2 (fHeight inDesc))\<rparr>
      else inDesc)"

text \<open>
  The flags tried at one size, starting from the caller's flags: the flags themselves, then
  with the render-target bit if it was missing, then without the no-stencil bit if it was set.
\<close>

definition flagStages :: "GrTextureFlags \<Rightarrow> GrTextureFlags list" where
  "flagStages f =
     f # (if f AND kRenderTarget_GrTextureFlagBit = 0
          then [f OR kRenderTarget_GrTextureFlagBit] else [])
       @ (if f AND kNoStencil_GrTextureFlagBit \<noteq> 0
          then [(f OR kRenderTarget_GrTextureFlagBit) AND NOT kNoStencil_GrTextureFlagBit]
          else [])"

text \<open>
  The descriptors looked up when every lookup misses: the flag stages at the starting
  size, again at double width, and again at the starting width and double height.
\<close>

definition relaxationSchedule :: "GrTextureDesc \<Rightarrow> GrTextureDesc list" where
  "relaxationSchedule desc =
     map (\<lambda>f. desc\<lparr>fFlags := f\<rparr>) (flagStages (fFlags desc))
     @ map (\<lambda>f. desc\<lparr>fFlags := f, fWidth := wrap32 (fWidth desc * 2)\<rparr>)
         (flagStages (fFlags desc))
     @ map (\<lambda>f. desc\<lparr>fFlags := f, fHeight := wrap32 (fHeight desc * 2)\<rparr>)
         (flagStages (fFlags desc))"


text \<open>The calls that follow the search when it found nothing: creation, registration, detach.\<close>

definition creationCalls :: "GrGpu \<Rightarrow> GrTextureDesc \<Rightarrow> Call list" where
  "creationCalls gpu desc =
     GpuCreateTexture desc
     # (if createTextureSucceeds gpu desc
        then [CacheCreateAndLock (ComputeKey desc True) (fNextHandle gpu),
              CacheDetach (fNextHandle gpu)]
        else [])"

text \<open>Every handle the cache knows was handed out by the device before.\<close>

definition handlesBelow :: "GrContext \<Rightarrow> bool" where
  "handlesBelow ctx =
     (\<forall>e \<in> set (fAttached (fTextureCache ctx) @ fDetached (fTextureCache ctx)).
        entryResource e < fNextHandle (fGpu ctx))"

definition attachedResources :: "GrContext \<Rightarrow> nat set" where
  "attachedResources ctx = entryResource ` set (fAttached (fTextureCache ctx))"

text \<open>A lookup that finds nothing, the lookups of a list of descriptors as calls, and the resources checked out of the index.\<close>

definition lookupMisses :: "GrContext \<Rightarrow> GrTextureDesc \<Rightarrow> bool" where
  "lookupMisses ctx desc =
     (find (\<lambda>e. entryKey e = ComputeKey desc True) (fAttached (fTextureCache ctx)) = None)"

definition probeCalls :: "GrTextureDesc list \<Rightarrow> Call list" where
  "probeCalls descs = map (\<lambda>desc. CacheFindAndLock (ComputeKey desc True)) descs"

definition detachedResources :: "GrContext \<Rightarrow> nat set" where
  "detachedResources ctx = entryResource ` set (fDetached (fTextureCache ctx))"

text \<open>Two requests, and the contexts after one and after two checkouts of the first.\<close>

definition plainDesc :: GrTextureDesc where
  "plainDesc = \<lparr>fFlags = 0, fWidth = 256, fHeight = 256, fConfig = kRGBA_8888_GrPixelConfig\<rparr>"

definition smallDesc :: GrTextureDesc where
  "smallDesc = \<lparr>fFlags = 0, fWidth = 100, fHeight = 100, fConfig = kRGBA_8888_GrPixelConfig\<rparr>"

definition checkedOutOnce :: GrContext where
  "checkedOutOnce = snd (lockScratchTexture plainDesc kApprox_ScratchTexMatch someContext)"

definition checkedOutTwice :: GrContext where
  "checkedOutTwice = snd (lockScratchTexture plainDesc kApprox_ScratchTexMatch checkedOutOnce)"















section \<open>Verified properties\<close>

subsection \<open>Applying a paint\<close>

lemma samplers_upd_cong: "f = g \<Longrightarrow> ds\<lparr>fSamplerStates := f\<rparr> = ds\<lparr>fSamplerStates := g\<rparr>"
  by simp

lemma setPaintTextures_eq:
  "setPaintTextures L p is ds =
     ds\<lparr>fSamplerStates := (\<lambda>s. if kFirstTextureStage L \<le> s \<and> s - kFirstTextureStage L \<in> set is
                                   \<and> isTextureStageEnabled p (s - kFirstTextureStage L)
                               then fTextureSamplers p (s - kFirstTextureStage L)
                               else fSamplerStates ds s)\<rparr>"
proof (induction "is" arbitrary: ds)
  case Nil
  show ?case by simp
next
  case (Cons i "is")
  show ?case
    by (simp add: Cons.IH) (auto intro!: samplers_upd_cong ext)
qed

lemma setPaintMasks_eq:
  "setPaintMasks L p is ds =
     ds\<lparr>fSamplerStates := (\<lambda>s. if kFirstMaskStage L \<le> s \<and> s - kFirstMaskStage L \<in> set is
                                   \<and> isMaskStageEnabled p (s - kFirstMaskStage L)
                               then fMaskSamplers p (s - kFirstMaskStage L)
                               else fSamplerStates ds s)\<rparr>"
proof (induction "is" arbitrary: ds)
  case Nil
  show ?case by simp
next
  case (Cons i "is")
  show ?case
    by (simp add: Cons.IH) (auto intro!: samplers_upd_cong ext)
qed

lemma disableStages_eq:
  "disableStages ss ds =
     ds\<lparr>fSamplerStates := (\<lambda>s. if s \<in> set ss then (fSamplerStates ds s)\<lparr>fCustomStage := None\<rparr>
                               else fSamplerStates ds s)\<rparr>"
proof (induction ss arbitrary: ds)
  case Nil
  show ?case by simp
next
  case (Cons s ss)
  show ?case
    by (simp add: Cons.IH disableStage_def) (auto intro!: samplers_upd_cong ext)
qed

lemma setPaintState_eq:
  "setPaintState L p ds =
     ds\<lparr>fSamplerStates := paintSamplers L p (fSamplerStates ds),
        fFirstCoverageStage := kFirstMaskStage L,
        fStateColor := fColor p, kDither_StateBit := fDither p,
        kHWAntialias_StateBit := fAntiAlias p,
        kColorMatrix_StateBit := fColorMatrixEnabled p,
        fStateColorMatrix := (if fColorMatrixEnabled p then fColorMatrix p else fStateColorMatrix ds),
        fSrcBlend := fSrcBlendCoeff p, fDstBlend := fDstBlendCoeff p,
        fStateColorFilterColor := fColorFilterColor p,
        fStateColorFilterXfermode := fColorFilterXfermode p,
        fStateCoverage := fCoverage p\<rparr>"
proof -
  have s: "(\<lambda>s. paintSamplers L p (fSamplerStates ds) s) =
      fSamplerStates (disableStages [kTotalStages L ..< kNumStages L]
         (setPaintMasks L p [0 ..< kMaxMasks L]
            ((setPaintTextures L p [0 ..< kMaxTextures L] ds)\<lparr>fFirstCoverageStage := kFirstMaskStage L\<rparr>)))"
    by (rule ext) (simp add: setPaintTextures_eq setPaintMasks_eq disableStages_eq paintSamplers_def Let_def)
  show ?thesis
    apply (cases "fColorMatrixEnabled p")
    apply (simp_all add: setPaintState_def Let_def s)
    apply (simp_all add: setPaintTextures_eq setPaintMasks_eq disableStages_eq)
    done
qed

lemma paintSamplers_idem: "paintSamplers L p (paintSamplers L p old) = paintSamplers L p old"
  by (rule ext) (simp add: paintSamplers_def Let_def)

lemma setPaintState_idem: "setPaintState L p (setPaintState L p ds) = setPaintState L p ds"
  by (simp add: setPaintState_eq paintSamplers_idem)
text \<open>
  C9. \<open>setPaint\<close> makes no call on the device or any other collaborator, and applying
  the same paint twice in succession leaves the context, and so the draw state, as applying
  it once does.
\<close>

theorem setPaint_idempotent:
  "setPaint paint (setPaint paint ctx) = setPaint paint ctx
   \<and> trace (setPaint paint ctx) = trace ctx
   \<and> fGpu (setPaint paint ctx) = fGpu ctx
   \<and> fTextureCache (setPaint paint ctx) = fTextureCache ctx
   \<and> fDrawBuffer (setPaint paint ctx) = fDrawBuffer ctx"
  by (simp add: setPaint_def setPaintState_idem)

subsection \<open>Flushing\<close>

lemma call_simps [simp]:
  "trace (call ev ctx) = trace ctx @ [ev]"
  "fDrawBuffer (call ev ctx) = fDrawBuffer ctx"
  "fGpu (call ev ctx) = fGpu ctx"
  "fDrawState (call ev ctx) = fDrawState ctx"
  "fTextureCache (call ev ctx) = fTextureCache ctx"
  "fLastDrawWasBuffered (call ev ctx) = fLastDrawWasBuffered ctx"
  by (simp_all add: call_def)

lemma flushDrawBuffer_null: "fDrawBuffer ctx = None \<Longrightarrow> flushDrawBuffer n ctx = Inr ctx"
  by simp

lemma writeTexturePixels_null:
  "fDrawBuffer ctx = None \<Longrightarrow>
   writeTexturePixels n tex args 0 ctx = Inr (call (GpuWriteTexturePixels tex args) ctx)"
  by (simp add: kDiscard_FlushBit_def)

lemma replay_null:
  "fDrawBuffer ctx = None \<Longrightarrow>
   replay n cmds ctx = Inr (ctx\<lparr>trace := trace ctx @ concat (map cmdCalls cmds)\<rparr>)"
proof (induction cmds arbitrary: ctx)
  case Nil
  show ?case by simp
next
  case (Cons c cmds)
  show ?case
  proof (cases c)
    case (CmdDraw d)
    have "fDrawBuffer (call (GpuExecute d) ctx) = None"
      using Cons.prems by simp
    from Cons.IH [OF this] show ?thesis
      using CmdDraw by (simp add: call_def)
  next
    case (CmdDrawWithClipMask d tex args)
    have "fDrawBuffer (call (GpuExecute d) (call (GpuWriteTexturePixels tex args) ctx)) = None"
      using Cons.prems by simp
    from Cons.IH [OF this] show ?thesis
      using CmdDrawWithClipMask Cons.prems
      by (simp del: writeTexturePixels.simps add: writeTexturePixels_null) (simp add: call_def)
  qed
qed

lemma flushTo_null:
  "fDrawBuffer ctx = None \<Longrightarrow>
   flushTo n buf ctx =
     Inr (buf\<lparr>fCmds := []\<rparr>, ctx\<lparr>trace := trace ctx @ BufFlushTo # concat (map cmdCalls (fCmds buf))\<rparr>)"
  by (simp del: replay.simps add: replay_null) (simp add: call_def)

lemma flushDrawBuffer_live:
  "fDrawBuffer ctx = Some buf \<Longrightarrow>
   flushDrawBuffer (Suc m) ctx =
     Inr (ctx\<lparr>fDrawBuffer := Some (buf\<lparr>fCmds := []\<rparr>),
              trace := trace ctx @ BufFlushTo # concat (map cmdCalls (fCmds buf))\<rparr>)"
  by (simp del: flushTo.simps add: flushTo_null)

lemma count_cmdCalls: "count_list (concat (map cmdCalls cmds)) BufFlushTo = 0"
proof (induction cmds)
  case Nil
  show ?case by simp
next
  case (Cons c cmds)
  then show ?case by (cases c) simp_all
qed
text \<open>
  C10. With the unpremultiplied-pixels flag set, \<open>writeTexturePixels\<close> returns at once:
  the context is unchanged, so nothing was flushed and nothing uploaded, and the call does
  not fail.
\<close>

theorem writeTexturePixels_unpremul_noop:
  "kUnpremul_PixelOpsFlag AND flags \<noteq> 0 \<Longrightarrow> writeTexturePixels n texture args flags ctx = Inr ctx"
  by simp

theorem writeTexturePixels_unpremul_noop_witness:
  "kUnpremul_PixelOpsFlag AND (3 :: 32 word) \<noteq> 0
   \<and> writeTexturePixels 0 7 someArgs 3 someContext = Inr someContext"
proof -
  have h: "kUnpremul_PixelOpsFlag AND (3 :: 32 word) \<noteq> 0"
    by (simp add: kUnpremul_PixelOpsFlag_def)
  from writeTexturePixels_unpremul_noop [OF h, of 0 7 someArgs someContext] h
  show ?thesis by blast
qed

text \<open>
  C5. \<open>flushDrawBuffer\<close> hands the buffer to \<open>flushTo\<close> with the context's draw-buffer
  member set to null and restores the member afterwards. A flush requested while the member
  is null returns the context as it is, for any fuel. So a flush of a live buffer returns
  with one level of recursion whatever the buffer holds, it calls \<open>flushTo\<close> exactly once,
  and the member stays null for the whole replay.
\<close>

theorem flushDrawBuffer_not_reentered:
  "(fDrawBuffer ctx = None \<longrightarrow> flushDrawBuffer n ctx = Inr ctx)
   \<and> (fDrawBuffer ctx = None \<longrightarrow>
        (\<exists>ctx'. flushTo n buf ctx = Inr (buf\<lparr>fCmds := []\<rparr>, ctx')
               \<and> fDrawBuffer ctx' = None \<and> flushCount ctx' = Suc (flushCount ctx)))
   \<and> (fDrawBuffer ctx = Some buf \<longrightarrow>
        flushDrawBuffer (Suc m) ctx =
          (case flushTo m buf (ctx\<lparr>fDrawBuffer := None\<rparr>) of
             Inl e \<Rightarrow> Inl e
           | Inr (temp, ctx') \<Rightarrow> Inr (ctx'\<lparr>fDrawBuffer := Some temp\<rparr>))
        \<and> (\<exists>ctx'. flushDrawBuffer (Suc m) ctx = Inr ctx'
               \<and> fDrawBuffer ctx' = Some (buf\<lparr>fCmds := []\<rparr>)
               \<and> flushCount ctx' = Suc (flushCount ctx)
               \<and> trace ctx' = trace ctx @ BufFlushTo # concat (map cmdCalls (fCmds buf))))"
proof (intro conjI impI)
  assume "fDrawBuffer ctx = None"
  then show "flushDrawBuffer n ctx = Inr ctx"
    by (rule flushDrawBuffer_null)
next
  assume "fDrawBuffer ctx = None"
  then show "\<exists>ctx'. flushTo n buf ctx = Inr (buf\<lparr>fCmds := []\<rparr>, ctx')
               \<and> fDrawBuffer ctx' = None \<and> flushCount ctx' = Suc (flushCount ctx)"
    by (simp only: flushTo_null) (simp add: flushCount_def count_cmdCalls)
next
  assume "fDrawBuffer ctx = Some buf"
  then show "flushDrawBuffer (Suc m) ctx =
          (case flushTo m buf (ctx\<lparr>fDrawBuffer := None\<rparr>) of
             Inl e \<Rightarrow> Inl e
           | Inr (temp, ctx') \<Rightarrow> Inr (ctx'\<lparr>fDrawBuffer := Some temp\<rparr>))"
    by (simp del: flushTo.simps)
next
  assume "fDrawBuffer ctx = Some buf"
  then show "\<exists>ctx'. flushDrawBuffer (Suc m) ctx = Inr ctx'
               \<and> fDrawBuffer ctx' = Some (buf\<lparr>fCmds := []\<rparr>)
               \<and> flushCount ctx' = Suc (flushCount ctx)
               \<and> trace ctx' = trace ctx @ BufFlushTo # concat (map cmdCalls (fCmds buf))"
    by (simp only: flushDrawBuffer_live) (simp add: flushCount_def count_cmdCalls)
qed

theorem flushDrawBuffer_not_reentered_witness:
  "fDrawBuffer flushingContext = None
   \<and> flushDrawBuffer 0 flushingContext = Inr flushingContext
   \<and> (\<exists>ctx'. flushTo 0 busyBuffer flushingContext = Inr (busyBuffer\<lparr>fCmds := []\<rparr>, ctx')
          \<and> fDrawBuffer ctx' = None \<and> flushCount ctx' = Suc (flushCount flushingContext))
   \<and> fDrawBuffer busyContext = Some busyBuffer
   \<and> (\<exists>ctx'. flushDrawBuffer (Suc 0) busyContext = Inr ctx'
          \<and> fDrawBuffer ctx' = Some (busyBuffer\<lparr>fCmds := []\<rparr>)
          \<and> flushCount ctx' = Suc (flushCount busyContext)
          \<and> trace ctx' = trace busyContext
               @ [BufFlushTo, GpuExecute 1, GpuWriteTexturePixels 7 someArgs, GpuExecute 2,
                  GpuExecute 3])"
proof -
  have n: "fDrawBuffer flushingContext = None"
    by (simp add: flushingContext_def)
  have s: "fDrawBuffer busyContext = Some busyBuffer"
    by (simp add: busyContext_def)
  have c: "concat (map cmdCalls (fCmds busyBuffer))
             = [GpuExecute 1, GpuWriteTexturePixels 7 someArgs, GpuExecute 2, GpuExecute 3]"
    by (simp add: busyBuffer_def)
  from flushDrawBuffer_not_reentered [of flushingContext 0 busyBuffer 0]
       flushDrawBuffer_not_reentered [of busyContext 0 busyBuffer 0] n s c
  show ?thesis by simp
qed

subsection \<open>Draw preparation\<close>

lemma setPaint_simps [simp]:
  "trace (setPaint p ctx) = trace ctx"
  "fDrawBuffer (setPaint p ctx) = fDrawBuffer ctx"
  "fGpu (setPaint p ctx) = fGpu ctx"
  "fTextureCache (setPaint p ctx) = fTextureCache ctx"
  "fLastDrawWasBuffered (setPaint p ctx) = fLastDrawWasBuffered ctx"
  "chainGetPathRenderer (setPaint p ctx) = chainGetPathRenderer ctx"
  "fRenderTarget (fDrawState (setPaint p ctx)) = fRenderTarget (fDrawState ctx)"
  by (simp_all add: setPaint_def setPaintState_eq)

lemma prepareToDraw_buffered:
  assumes "fDrawBuffer ctx = Some buf"
  shows "\<exists>c. prepareToDraw n paint kYes_BufferedDraw ctx = Inr (TargetDrawBuffer, c)
           \<and> trace c = trace ctx @ [BufSetClip (fGpuClip (fGpu ctx))]
           \<and> fLastDrawWasBuffered c = kYes_BufferedDraw
           \<and> fDrawBuffer c = Some (buf\<lparr>fBufferClip := fGpuClip (fGpu ctx)\<rparr>)"
  using assms by (cases paint) (simp_all add: prepareToDraw_def)

lemma prepareToDraw_after_buffered:
  assumes "fDrawBuffer ctx = Some buf" and "fLastDrawWasBuffered ctx = kYes_BufferedDraw"
  shows "\<exists>c. prepareToDraw (Suc m) paint kNo_BufferedDraw ctx = Inr (TargetGpu, c)
           \<and> trace c = trace ctx @ BufFlushTo # concat (map cmdCalls (fCmds buf))
           \<and> fLastDrawWasBuffered c = kNo_BufferedDraw
           \<and> fDrawBuffer c = Some (buf\<lparr>fCmds := []\<rparr>)"
  using assms
  by (cases paint)
     (simp_all add: prepareToDraw_def flushDrawBuffer_live del: flushDrawBuffer.simps)

lemma prepareToDraw_after_unbuffered:
  assumes "fLastDrawWasBuffered ctx = kNo_BufferedDraw"
  shows "\<exists>c. prepareToDraw n paint kNo_BufferedDraw ctx = Inr (TargetGpu, c)
           \<and> trace c = trace ctx
           \<and> fLastDrawWasBuffered c = kNo_BufferedDraw"
  using assms by (cases paint) (simp_all add: prepareToDraw_def)

lemma prepareToDraw_null:
  assumes "fDrawBuffer ctx = None"
  shows "prepareToDraw n paint kYes_BufferedDraw ctx = Inl NullDereference"
    and "\<exists>c. prepareToDraw n paint kNo_BufferedDraw ctx = Inr (TargetGpu, c)
           \<and> trace c = trace ctx
           \<and> fLastDrawWasBuffered c = kNo_BufferedDraw"
  using assms
  by (cases paint; cases "fLastDrawWasBuffered ctx"; simp add: prepareToDraw_def)+

lemma flushCount_append:
  "trace c = trace ctx @ evs \<Longrightarrow> flushCount c = flushCount ctx + count_list evs BufFlushTo"
  by (simp add: flushCount_def)

text \<open>
  C4 as stated fails while the draw buffer is being flushed. The member is
  null then and the last draw is still marked buffered (the mark is cleared after the
  flush returns); a request for unbuffered execution made from inside the flush returns the
  device and no flush is performed for it.
\<close>

theorem prepareToDraw_nested_counterexample:
  "fLastDrawWasBuffered flushingContext = kYes_BufferedDraw
   \<and> fDrawBuffer flushingContext = None
   \<and> (\<exists>ctx'. prepareToDraw 1 None kNo_BufferedDraw flushingContext = Inr (TargetGpu, ctx')
          \<and> trace ctx' = trace flushingContext
          \<and> flushCount ctx' = flushCount flushingContext)"
  by (simp add: prepareToDraw_def flushingContext_def busyContext_def flushCount_def)

text \<open>
  C4, as the code has it. On a context whose draw buffer is live, a request for buffered
  execution returns the draw buffer, sets its clip, marks the last draw as buffered, keeps
  the buffer live and never flushes; a request for unbuffered execution that follows it
  calls \<open>flushTo\<close> exactly once, replaying what the buffer recorded, returns the device and
  marks the last draw as unbuffered, so that a further request for unbuffered execution
  returns the device without a flush. While the draw buffer is being flushed (the member is
  null), a request for unbuffered execution returns the device and performs no flush,
  whatever the mark, and a request for buffered execution dereferences the null member.
\<close>

theorem prepareToDraw_flushes_once:
  "(fDrawBuffer ctx = Some buf \<longrightarrow>
      (\<exists>c1. prepareToDraw n p1 kYes_BufferedDraw ctx = Inr (TargetDrawBuffer, c1)
           \<and> trace c1 = trace ctx @ [BufSetClip (fGpuClip (fGpu ctx))]
           \<and> flushCount c1 = flushCount ctx
           \<and> fLastDrawWasBuffered c1 = kYes_BufferedDraw
           \<and> fDrawBuffer c1 = Some (buf\<lparr>fBufferClip := fGpuClip (fGpu ctx)\<rparr>)
           \<and> (\<exists>c2. prepareToDraw (Suc m) p2 kNo_BufferedDraw c1 = Inr (TargetGpu, c2)
                  \<and> trace c2 = trace c1 @ BufFlushTo # concat (map cmdCalls (fCmds buf))
                  \<and> flushCount c2 = Suc (flushCount ctx)
                  \<and> fLastDrawWasBuffered c2 = kNo_BufferedDraw
                  \<and> (\<exists>c3. prepareToDraw k p3 kNo_BufferedDraw c2 = Inr (TargetGpu, c3)
                         \<and> trace c3 = trace c2)))
      \<and> (fLastDrawWasBuffered ctx = kYes_BufferedDraw \<longrightarrow>
           (\<exists>ctx'. prepareToDraw (Suc m) p2 kNo_BufferedDraw ctx = Inr (TargetGpu, ctx')
                  \<and> flushCount ctx' = Suc (flushCount ctx)
                  \<and> trace ctx' = trace ctx @ BufFlushTo # concat (map cmdCalls (fCmds buf))
                  \<and> fLastDrawWasBuffered ctx' = kNo_BufferedDraw))
      \<and> (fLastDrawWasBuffered ctx = kNo_BufferedDraw \<longrightarrow>
           (\<exists>ctx'. prepareToDraw k p3 kNo_BufferedDraw ctx = Inr (TargetGpu, ctx')
                  \<and> trace ctx' = trace ctx)))
   \<and> (fDrawBuffer ctx = None \<longrightarrow>
        prepareToDraw n p1 kYes_BufferedDraw ctx = Inl NullDereference
        \<and> (\<exists>ctx'. prepareToDraw k p3 kNo_BufferedDraw ctx = Inr (TargetGpu, ctx')
               \<and> trace ctx' = trace ctx
               \<and> fLastDrawWasBuffered ctx' = kNo_BufferedDraw))"
proof (intro conjI impI)
  assume live: "fDrawBuffer ctx = Some buf"
  from prepareToDraw_buffered [OF live, of n p1]
  obtain c1 where c1: "prepareToDraw n p1 kYes_BufferedDraw ctx = Inr (TargetDrawBuffer, c1)"
    and t1: "trace c1 = trace ctx @ [BufSetClip (fGpuClip (fGpu ctx))]"
    and l1: "fLastDrawWasBuffered c1 = kYes_BufferedDraw"
    and b1: "fDrawBuffer c1 = Some (buf\<lparr>fBufferClip := fGpuClip (fGpu ctx)\<rparr>)"
    by blast
  from prepareToDraw_after_buffered [OF b1 l1, of m p2]
  obtain c2 where c2: "prepareToDraw (Suc m) p2 kNo_BufferedDraw c1 = Inr (TargetGpu, c2)"
    and t2: "trace c2 = trace c1 @ BufFlushTo # concat (map cmdCalls (fCmds buf))"
    and l2: "fLastDrawWasBuffered c2 = kNo_BufferedDraw"
    by auto
  from prepareToDraw_after_unbuffered [OF l2, of k p3]
  obtain c3 where c3: "prepareToDraw k p3 kNo_BufferedDraw c2 = Inr (TargetGpu, c3)"
    and t3: "trace c3 = trace c2"
    by blast
  have f1: "flushCount c1 = flushCount ctx"
    using flushCount_append [OF t1] by simp
  have f2: "flushCount c2 = Suc (flushCount ctx)"
    using flushCount_append [OF t2] f1 by (simp add: count_cmdCalls)
  from c1 t1 f1 l1 b1 c2 t2 f2 l2 c3 t3
  show "\<exists>c1. prepareToDraw n p1 kYes_BufferedDraw ctx = Inr (TargetDrawBuffer, c1)
           \<and> trace c1 = trace ctx @ [BufSetClip (fGpuClip (fGpu ctx))]
           \<and> flushCount c1 = flushCount ctx
           \<and> fLastDrawWasBuffered c1 = kYes_BufferedDraw
           \<and> fDrawBuffer c1 = Some (buf\<lparr>fBufferClip := fGpuClip (fGpu ctx)\<rparr>)
           \<and> (\<exists>c2. prepareToDraw (Suc m) p2 kNo_BufferedDraw c1 = Inr (TargetGpu, c2)
                  \<and> trace c2 = trace c1 @ BufFlushTo # concat (map cmdCalls (fCmds buf))
                  \<and> flushCount c2 = Suc (flushCount ctx)
                  \<and> fLastDrawWasBuffered c2 = kNo_BufferedDraw
                  \<and> (\<exists>c3. prepareToDraw k p3 kNo_BufferedDraw c2 = Inr (TargetGpu, c3)
                         \<and> trace c3 = trace c2))"
    by blast
next
  assume live: "fDrawBuffer ctx = Some buf" and l: "fLastDrawWasBuffered ctx = kYes_BufferedDraw"
  from prepareToDraw_after_buffered [OF live l, of m p2]
  obtain c where c: "prepareToDraw (Suc m) p2 kNo_BufferedDraw ctx = Inr (TargetGpu, c)"
    and t: "trace c = trace ctx @ BufFlushTo # concat (map cmdCalls (fCmds buf))"
    and l': "fLastDrawWasBuffered c = kNo_BufferedDraw"
    by blast
  have "flushCount c = Suc (flushCount ctx)"
    using flushCount_append [OF t] by (simp add: count_cmdCalls)
  with c t l'
  show "\<exists>ctx'. prepareToDraw (Suc m) p2 kNo_BufferedDraw ctx = Inr (TargetGpu, ctx')
                  \<and> flushCount ctx' = Suc (flushCount ctx)
                  \<and> trace ctx' = trace ctx @ BufFlushTo # concat (map cmdCalls (fCmds buf))
                  \<and> fLastDrawWasBuffered ctx' = kNo_BufferedDraw"
    by blast
next
  assume "fLastDrawWasBuffered ctx = kNo_BufferedDraw"
  from prepareToDraw_after_unbuffered [OF this, of k p3]
  show "\<exists>ctx'. prepareToDraw k p3 kNo_BufferedDraw ctx = Inr (TargetGpu, ctx')
                  \<and> trace ctx' = trace ctx"
    by blast
next
  assume "fDrawBuffer ctx = None"
  then show "prepareToDraw n p1 kYes_BufferedDraw ctx = Inl NullDereference"
    by (rule prepareToDraw_null(1))
next
  assume "fDrawBuffer ctx = None"
  then show "\<exists>ctx'. prepareToDraw k p3 kNo_BufferedDraw ctx = Inr (TargetGpu, ctx')
               \<and> trace ctx' = trace ctx
               \<and> fLastDrawWasBuffered ctx' = kNo_BufferedDraw"
    by (rule prepareToDraw_null(2))
qed

theorem prepareToDraw_flushes_once_witness:
  "fDrawBuffer someContext = Some \<lparr>fCmds = [], fBufferClip = 0\<rparr>
   \<and> fLastDrawWasBuffered someContext = kNo_BufferedDraw
   \<and> (\<exists>c1. prepareToDraw 0 (Some somePaint) kYes_BufferedDraw someContext
               = Inr (TargetDrawBuffer, c1)
          \<and> trace c1 = [BufSetClip 0]
          \<and> fLastDrawWasBuffered c1 = kYes_BufferedDraw
          \<and> (\<exists>c2. prepareToDraw 1 None kNo_BufferedDraw c1 = Inr (TargetGpu, c2)
                 \<and> trace c2 = [BufSetClip 0, BufFlushTo]
                 \<and> flushCount c2 = 1
                 \<and> fLastDrawWasBuffered c2 = kNo_BufferedDraw
                 \<and> (\<exists>c3. prepareToDraw 0 None kNo_BufferedDraw c2 = Inr (TargetGpu, c3)
                        \<and> trace c3 = [BufSetClip 0, BufFlushTo])))
   \<and> (\<exists>ctx'. prepareToDraw 0 None kNo_BufferedDraw someContext = Inr (TargetGpu, ctx')
          \<and> trace ctx' = [])
   \<and> fDrawBuffer busyContext = Some busyBuffer
   \<and> fLastDrawWasBuffered busyContext = kYes_BufferedDraw
   \<and> (\<exists>ctx'. prepareToDraw 1 None kNo_BufferedDraw busyContext = Inr (TargetGpu, ctx')
          \<and> flushCount ctx' = 1
          \<and> trace ctx' = [BufFlushTo, GpuExecute 1, GpuWriteTexturePixels 7 someArgs,
                           GpuExecute 2, GpuExecute 3]
          \<and> fLastDrawWasBuffered ctx' = kNo_BufferedDraw)
   \<and> fDrawBuffer flushingContext = None
   \<and> prepareToDraw 0 (Some somePaint) kYes_BufferedDraw flushingContext = Inl NullDereference
   \<and> (\<exists>ctx'. prepareToDraw 0 None kNo_BufferedDraw flushingContext = Inr (TargetGpu, ctx')
          \<and> trace ctx' = []
          \<and> fLastDrawWasBuffered ctx' = kNo_BufferedDraw)"
proof -
  have s: "fDrawBuffer busyContext = Some busyBuffer"
    "fLastDrawWasBuffered busyContext = kYes_BufferedDraw"
    "trace busyContext = []" "flushCount busyContext = 0"
    by (simp_all add: busyContext_def someContext_def newContext_def flushCount_def)
  have s': "fDrawBuffer someContext = Some \<lparr>fCmds = [], fBufferClip = 0\<rparr>"
    "fLastDrawWasBuffered someContext = kNo_BufferedDraw"
    "trace someContext = []" "flushCount someContext = 0" "fGpuClip (fGpu someContext) = 0"
    by (simp_all add: someContext_def newContext_def someGpu_def flushCount_def)
  have n: "fDrawBuffer flushingContext = None" "trace flushingContext = []"
    by (simp_all add: flushingContext_def busyContext_def someContext_def newContext_def)
  have c: "concat (map cmdCalls (fCmds busyBuffer))
             = [GpuExecute 1, GpuWriteTexturePixels 7 someArgs, GpuExecute 2, GpuExecute 3]"
    by (simp add: busyBuffer_def)
  from prepareToDraw_flushes_once
         [of someContext "\<lparr>fCmds = [], fBufferClip = 0\<rparr>" 0 "Some somePaint" 0 None 0 None]
  have a: "\<exists>c1. prepareToDraw 0 (Some somePaint) kYes_BufferedDraw someContext
               = Inr (TargetDrawBuffer, c1)
          \<and> trace c1 = [BufSetClip 0]
          \<and> fLastDrawWasBuffered c1 = kYes_BufferedDraw
          \<and> (\<exists>c2. prepareToDraw 1 None kNo_BufferedDraw c1 = Inr (TargetGpu, c2)
                 \<and> trace c2 = [BufSetClip 0, BufFlushTo]
                 \<and> flushCount c2 = 1
                 \<and> fLastDrawWasBuffered c2 = kNo_BufferedDraw
                 \<and> (\<exists>c3. prepareToDraw 0 None kNo_BufferedDraw c2 = Inr (TargetGpu, c3)
                        \<and> trace c3 = [BufSetClip 0, BufFlushTo]))"
    and a': "\<exists>ctx'. prepareToDraw 0 None kNo_BufferedDraw someContext = Inr (TargetGpu, ctx')
          \<and> trace ctx' = []"
    using s' by auto
  from prepareToDraw_flushes_once [of busyContext busyBuffer 0 None 0 None 0 None]
  have b: "\<exists>ctx'. prepareToDraw 1 None kNo_BufferedDraw busyContext = Inr (TargetGpu, ctx')
          \<and> flushCount ctx' = 1
          \<and> trace ctx' = [BufFlushTo, GpuExecute 1, GpuWriteTexturePixels 7 someArgs,
                           GpuExecute 2, GpuExecute 3]
          \<and> fLastDrawWasBuffered ctx' = kNo_BufferedDraw"
    using s c by auto
  from prepareToDraw_flushes_once
         [of flushingContext busyBuffer 0 "Some somePaint" 0 None 0 None]
  have d: "prepareToDraw 0 (Some somePaint) kYes_BufferedDraw flushingContext = Inl NullDereference"
    and d': "\<exists>ctx'. prepareToDraw 0 None kNo_BufferedDraw flushingContext = Inr (TargetGpu, ctx')
          \<and> trace ctx' = []
          \<and> fLastDrawWasBuffered ctx' = kNo_BufferedDraw"
    using n by auto
  from a a' b d d' s s' n show ?thesis
    by simp
qed

subsection \<open>Ovals and paths\<close>





lemma prepareToDraw_returns:
  assumes "fDrawBuffer ctx = Some buf"
  shows "\<exists>ctx1. prepareToDraw (Suc m) paint buffered ctx
                 = Inr (if buffered = kYes_BufferedDraw then TargetDrawBuffer else TargetGpu, ctx1)
               \<and> fDrawBuffer ctx1 \<noteq> None
               \<and> fRenderTarget (fDrawState ctx1) = fRenderTarget (fDrawState ctx)"
  using assms
  by (cases paint; cases buffered; cases "fLastDrawWasBuffered ctx")
     (simp_all add: prepareToDraw_def Let_def flushDrawBuffer_live del: flushDrawBuffer.simps)

lemma internalDrawPath_returns:
  assumes "fDrawBuffer ctx = Some buf" and "fRenderTarget (fDrawState ctx) \<noteq> None"
  shows "\<exists>ctx'. internalDrawPath (Suc m) paint path fill translate ctx = Inr ctx'"
proof -
  from prepareToDraw_returns [OF assms(1), of m "Some paint" "DEFAULT_BUFFERING ctx"]
  obtain target ctx1 where "prepareToDraw (Suc m) (Some paint) (DEFAULT_BUFFERING ctx) ctx = Inr (target, ctx1)"
    and "fRenderTarget (fDrawState ctx1) = fRenderTarget (fDrawState ctx)"
    by blast
  with assms(2) show ?thesis
    by (simp add: internalDrawPath_def Let_def)
qed



lemma autoStageDisable_simps [simp]:
  "trace (autoStageDisable ctx) = trace ctx"
  "fDrawBuffer (autoStageDisable ctx) = fDrawBuffer ctx"
  "fVertexEdgeType (fDrawState (autoStageDisable ctx)) = fVertexEdgeType (fDrawState ctx)"
  by (simp_all add: autoStageDisable_def disableStages_eq)













subsection \<open>The relaxation search\<close>

lemma lookupMisses_call [simp]: "lookupMisses (call ev ctx) desc = lookupMisses ctx desc"
  by (simp add: lookupMisses_def)

lemma lookupMisses_trace [simp]: "lookupMisses (ctx\<lparr>trace := t\<rparr>) desc = lookupMisses ctx desc"
  by (simp add: lookupMisses_def)

lemma scratchLoop_miss:
  assumes "lookupMisses ctx (fst st)"
  shows "scratchLoop kApprox_ScratchTexMatch inFlags origWidth st ctx =
     (case relaxDesc inFlags origWidth st of
        None \<Rightarrow> (None, call (CacheFindAndLock (ComputeKey (fst st) True)) ctx)
      | Some st' \<Rightarrow>
          scratchLoop kApprox_ScratchTexMatch inFlags origWidth st'
            (call (CacheFindAndLock (ComputeKey (fst st) True)) ctx))"
  using assms
  by (subst scratchLoop.simps) (simp add: Let_def lookupMisses_def findAndLock_def split: option.splits)

lemma scratchLoop_hit:
  assumes "\<not> lookupMisses ctx (fst st)"
  shows "\<exists>r ctx'. scratchLoop match inFlags origWidth st ctx = (Some r, ctx')
           \<and> trace ctx' = trace ctx @ [CacheFindAndLock (ComputeKey (fst st) True)]"
  using assms
  by (subst scratchLoop.simps)
     (auto simp: Let_def lookupMisses_def findAndLock_def split: option.splits)

lemma flag_facts:
  "(f OR 1) AND 1 \<noteq> 0"
  "(f OR 1) AND 2 = f AND 2"
  "(f AND - 3) AND 2 = 0"
  "(f AND - 3) AND 1 = f AND 1"
  "((f OR 1) AND - 3) AND 1 \<noteq> 0"
  for f :: "32 word"
proof -
  show "(f OR 1) AND 1 \<noteq> 0" by simp
  have "(1 :: 32 word) AND 2 = 0" by simp
  then show "(f OR 1) AND 2 = f AND 2" by (simp add: bit.conj_disj_distrib2)
  have "(- 3 :: 32 word) AND 2 = 0" by simp
  then show "(f AND - 3) AND 2 = 0" by (simp add: and.assoc)
  have "(- 3 :: 32 word) AND 1 = 1" by simp
  then show c: "(f AND - 3) AND 1 = f AND 1" for f :: "32 word" by (simp add: and.assoc)
  show "((f OR 1) AND - 3) AND 1 \<noteq> 0" by (simp add: c)
qed

lemma call_trace: "call ev ctx = ctx\<lparr>trace := trace ctx @ [ev]\<rparr>"
  by (simp add: call_def)

lemma scratchLoop_flag_phase:
  assumes "\<forall>f \<in> set (flagStages (fFlags d)). lookupMisses ctx (d\<lparr>fFlags := f\<rparr>)"
  shows "scratchLoop kApprox_ScratchTexMatch inFlags origWidth (d, dW, dH) ctx =
     (let ctx' = ctx\<lparr>trace := trace ctx
                   @ probeCalls (map (\<lambda>f. d\<lparr>fFlags := f\<rparr>) (flagStages (fFlags d)))\<rparr>
      in if \<not> dW
         then scratchLoop kApprox_ScratchTexMatch inFlags origWidth
                (d\<lparr>fFlags := inFlags, fWidth := wrap32 (fWidth d * 2)\<rparr>, True, dH) ctx'
         else if \<not> dH
         then scratchLoop kApprox_ScratchTexMatch inFlags origWidth
                (d\<lparr>fFlags := inFlags, fWidth := origWidth, fHeight := wrap32 (fHeight d * 2)\<rparr>, dW, True) ctx'
         else (None, ctx'))"
proof -
  have m0: "lookupMisses ctx d"
    using assms by (simp add: flagStages_def)
  show ?thesis
  proof (cases "fFlags d AND 1 = 0")
    case rt: True
    have m1: "lookupMisses ctx (d\<lparr>fFlags := fFlags d OR 1\<rparr>)"
      using assms rt by (simp add: flagStages_def kRenderTarget_GrTextureFlagBit_def)
    show ?thesis
    proof (cases "fFlags d AND 2 = 0")
      case True
      with rt m0 m1 show ?thesis
        by (simp add: scratchLoop_miss relaxDesc_def flagStages_def probeCalls_def Let_def
              kRenderTarget_GrTextureFlagBit_def kNoStencil_GrTextureFlagBit_def flag_facts
              call_trace)
    next
      case False
      have m2: "lookupMisses ctx (d\<lparr>fFlags := (fFlags d OR 1) AND - 3\<rparr>)"
        using assms False
        by (simp add: flagStages_def kRenderTarget_GrTextureFlagBit_def
              kNoStencil_GrTextureFlagBit_def)
      from False rt m0 m1 m2 show ?thesis
        by (simp add: scratchLoop_miss relaxDesc_def flagStages_def probeCalls_def Let_def
              kRenderTarget_GrTextureFlagBit_def kNoStencil_GrTextureFlagBit_def flag_facts
              call_trace)
    qed
  next
    case rt: False
    show ?thesis
    proof (cases "fFlags d AND 2 = 0")
      case True
      with rt m0 show ?thesis
        by (simp add: scratchLoop_miss relaxDesc_def flagStages_def probeCalls_def Let_def
              kRenderTarget_GrTextureFlagBit_def kNoStencil_GrTextureFlagBit_def flag_facts
              call_trace)
    next
      case False
      have m2: "lookupMisses ctx (d\<lparr>fFlags := (fFlags d OR 1) AND - 3\<rparr>)"
        using assms False
        by (simp add: flagStages_def kRenderTarget_GrTextureFlagBit_def
              kNoStencil_GrTextureFlagBit_def)
      have "fFlags d OR 1 = fFlags d"
        using rt by (simp add: and_one_eq or_one_eq odd_iff_mod_2_eq_one)
      with False rt m0 m2 show ?thesis
        by (simp add: scratchLoop_miss relaxDesc_def flagStages_def probeCalls_def Let_def
              kRenderTarget_GrTextureFlagBit_def kNoStencil_GrTextureFlagBit_def flag_facts
              call_trace)
    qed
  qed
qed

lemma desc_update_order:
  "d\<lparr>fWidth := w, fFlags := f\<rparr> = d\<lparr>fFlags := f, fWidth := w\<rparr>"
  "d\<lparr>fHeight := h, fFlags := f\<rparr> = d\<lparr>fFlags := f, fHeight := h\<rparr>"
  "d\<lparr>fHeight := h, fWidth := w\<rparr> = d\<lparr>fWidth := w, fHeight := h\<rparr>"
  by (cases d; simp)+

lemma scratchLoop_all_miss:
  assumes "\<forall>d' \<in> set (relaxationSchedule d). lookupMisses ctx d'"
  shows "scratchLoop kApprox_ScratchTexMatch (fFlags d) (fWidth d) (d, False, False) ctx =
           (None, ctx\<lparr>trace := trace ctx @ probeCalls (relaxationSchedule d)\<rparr>)"
proof -
  let ?d2 = "d\<lparr>fFlags := fFlags d, fWidth := wrap32 (fWidth d * 2)\<rparr>"
  let ?d3 = "?d2\<lparr>fFlags := fFlags d, fWidth := fWidth d, fHeight := wrap32 (fHeight ?d2 * 2)\<rparr>"
  let ?c1 = "ctx\<lparr>trace := trace ctx
                 @ probeCalls (map (\<lambda>f. d\<lparr>fFlags := f\<rparr>) (flagStages (fFlags d)))\<rparr>"
  let ?c2 = "?c1\<lparr>trace := trace ?c1
                 @ probeCalls (map (\<lambda>f. ?d2\<lparr>fFlags := f\<rparr>) (flagStages (fFlags ?d2)))\<rparr>"
  have p1: "\<forall>f \<in> set (flagStages (fFlags d)). lookupMisses ctx (d\<lparr>fFlags := f\<rparr>)"
    using assms by (simp add: relaxationSchedule_def)
  have p2: "\<forall>f \<in> set (flagStages (fFlags ?d2)). lookupMisses ?c1 (?d2\<lparr>fFlags := f\<rparr>)"
  proof
    fix f
    assume "f \<in> set (flagStages (fFlags ?d2))"
    then have "d\<lparr>fFlags := f, fWidth := wrap32 (fWidth d * 2)\<rparr> \<in> set (relaxationSchedule d)"
      unfolding relaxationSchedule_def by auto
    with assms have "lookupMisses ctx (d\<lparr>fFlags := f, fWidth := wrap32 (fWidth d * 2)\<rparr>)"
      by blast
    then show "lookupMisses ?c1 (?d2\<lparr>fFlags := f\<rparr>)"
      by (simp add: desc_update_order)
  qed
  have p3: "\<forall>f \<in> set (flagStages (fFlags ?d3)). lookupMisses ?c2 (?d3\<lparr>fFlags := f\<rparr>)"
  proof
    fix f
    assume "f \<in> set (flagStages (fFlags ?d3))"
    then have "d\<lparr>fFlags := f, fHeight := wrap32 (fHeight d * 2)\<rparr> \<in> set (relaxationSchedule d)"
      unfolding relaxationSchedule_def by auto
    with assms have "lookupMisses ctx (d\<lparr>fFlags := f, fHeight := wrap32 (fHeight d * 2)\<rparr>)"
      by blast
    then show "lookupMisses ?c2 (?d3\<lparr>fFlags := f\<rparr>)"
      by (simp add: desc_update_order)
  qed
  have "scratchLoop kApprox_ScratchTexMatch (fFlags d) (fWidth d) (d, False, False) ctx
          = scratchLoop kApprox_ScratchTexMatch (fFlags d) (fWidth d) (?d2, True, False) ?c1"
    by (simp add: scratchLoop_flag_phase [OF p1] Let_def)
  also have "\<dots> = scratchLoop kApprox_ScratchTexMatch (fFlags d) (fWidth d) (?d3, True, True) ?c2"
    by (simp only: scratchLoop_flag_phase [OF p2] Let_def) simp
  also have "\<dots> = (None, ?c2\<lparr>trace := trace ?c2
                 @ probeCalls (map (\<lambda>f. ?d3\<lparr>fFlags := f\<rparr>) (flagStages (fFlags ?d3)))\<rparr>)"
    by (simp only: scratchLoop_flag_phase [OF p3] Let_def) simp
  also have "\<dots> = (None, ctx\<lparr>trace := trace ctx @ probeCalls (relaxationSchedule d)\<rparr>)"
    by (simp add: relaxationSchedule_def probeCalls_def desc_update_order)
  finally show ?thesis .
qed

lemma scratchLoop_exact_miss:
  assumes "lookupMisses ctx d"
  shows "scratchLoop kExact_ScratchTexMatch inFlags origWidth (d, dW, dH) ctx =
           (None, ctx\<lparr>trace := trace ctx @ probeCalls [d]\<rparr>)"
  using assms
  by (subst scratchLoop.simps)
     (simp add: Let_def lookupMisses_def findAndLock_def probeCalls_def call_trace)

lemma binDesc_simps [simp]:
  "fFlags (binDesc match inDesc) = fFlags inDesc"
  "fConfig (binDesc match inDesc) = fConfig inDesc"
  "binDesc kExact_ScratchTexMatch inDesc = inDesc"
  by (simp_all add: binDesc_def)

lemma lockScratchTexture_creates:
  assumes "scratchLoop match (fFlags inDesc) (fWidth (binDesc match inDesc))
             (binDesc match inDesc, False, False) ctx = (None, ctx1)"
  shows "trace (snd (lockScratchTexture inDesc match ctx))
           = trace ctx1 @ creationCalls (fGpu ctx1) (binDesc match inDesc)"
    and "fst (lockScratchTexture inDesc match ctx)
           = (if createTextureSucceeds (fGpu ctx1) (binDesc match inDesc)
              then Some (fNextHandle (fGpu ctx1)) else None)"
proof -
  have b: "(binDesc match inDesc)\<lparr>fFlags := fFlags inDesc\<rparr> = binDesc match inDesc"
    by (simp add: binDesc_def)
  have u: "lockScratchTexture inDesc match ctx =
     (let desc = binDesc match inDesc;
          made = createTexture desc (fGpu ctx1);
          c = call (GpuCreateTexture desc) (ctx1\<lparr>fGpu := snd made\<rparr>)
      in case fst made of
           None \<Rightarrow> (None, c)
         | Some texture \<Rightarrow>
             (Some (texHandle texture),
              call (CacheDetach (texHandle texture))
                (call (CacheCreateAndLock (ComputeKey (texDesc texture) True) (texHandle texture))
                   (c\<lparr>fTextureCache :=
                        createAndLock (ComputeKey (texDesc texture) True) (texHandle texture)
                          (textureSizeInBytes (fGpu c) (texDesc texture)) (fTextureCache c)\<rparr>)
                 \<lparr>fTextureCache :=
                    detach (texHandle texture)
                      (createAndLock (ComputeKey (texDesc texture) True) (texHandle texture)
                         (textureSizeInBytes (fGpu c) (texDesc texture)) (fTextureCache c))\<rparr>)))"
    unfolding lockScratchTexture_def binDesc_def [symmetric] Let_def
    by (simp add: assms b split: option.splits)
  show "trace (snd (lockScratchTexture inDesc match ctx))
           = trace ctx1 @ creationCalls (fGpu ctx1) (binDesc match inDesc)"
    by (simp add: u Let_def createTexture_def creationCalls_def)
  show "fst (lockScratchTexture inDesc match ctx)
           = (if createTextureSucceeds (fGpu ctx1) (binDesc match inDesc)
              then Some (fNextHandle (fGpu ctx1)) else None)"
    by (simp add: u Let_def createTexture_def)
qed

lemma lookupsOf_append [simp]: "lookupsOf (xs @ ys) = lookupsOf xs @ lookupsOf ys"
  by (induction xs rule: lookupsOf.induct) simp_all

lemma lookupsOf_probeCalls [simp]: "lookupsOf (probeCalls ds) = map (\<lambda>d. ComputeKey d True) ds"
  by (induction ds) (simp_all add: probeCalls_def)

lemma lookupsOf_creationCalls [simp]: "lookupsOf (creationCalls gpu d) = []"
  by (simp add: creationCalls_def)

lemma pow2_256: "GrNextPow2 256 = 256" "GrNextPow2 100 = 128"
  by (simp_all add: GrNextPow2_def compute_floorlog)


lemma lockScratchTexture_exact_miss:
  assumes "lookupMisses ctx inDesc"
  shows "trace (snd (lockScratchTexture inDesc kExact_ScratchTexMatch ctx))
           = trace ctx @ probeCalls [inDesc] @ creationCalls (fGpu ctx) inDesc"
proof -
  from scratchLoop_exact_miss [OF assms]
  have "scratchLoop kExact_ScratchTexMatch (fFlags inDesc)
          (fWidth (binDesc kExact_ScratchTexMatch inDesc))
          (binDesc kExact_ScratchTexMatch inDesc, False, False) ctx
          = (None, ctx\<lparr>trace := trace ctx @ probeCalls [inDesc]\<rparr>)"
    by simp
  from lockScratchTexture_creates(1) [OF this] show ?thesis
    by simp
qed

lemma someContext_misses [simp]: "lookupMisses someContext d"
  by (simp add: lookupMisses_def someContext_def newContext_def)

lemma someContext_simps [simp]:
  "trace someContext = []"
  "fGpu someContext = someGpu"
  by (simp_all add: someContext_def newContext_def)

lemma binDesc_plainDesc [simp]: "binDesc match plainDesc = plainDesc"
  by (simp add: binDesc_def plainDesc_def pow2_256 MIN_SIZE_def)

lemma binDesc_smallDesc [simp]:
  "binDesc kApprox_ScratchTexMatch smallDesc = smallDesc\<lparr>fWidth := 256, fHeight := 256\<rparr>"
  by (simp add: binDesc_def smallDesc_def pow2_256 MIN_SIZE_def)


subsection \<open>What the search and the checkout do to the cache\<close>

lemma find_in_set: "find P xs = Some x \<Longrightarrow> x \<in> set xs"
  by (induction xs) (auto split: if_splits)

lemma findAndLock_detached [simp]: "fDetached (snd (findAndLock key c)) = fDetached c"
  by (simp add: findAndLock_def split: option.splits)

lemma findAndLock_resources [simp]:
  "entryResource ` set (fAttached (snd (findAndLock key c))) = entryResource ` set (fAttached c)"
proof (cases "find (\<lambda>e. entryKey e = key) (fAttached c)")
  case None
  then show ?thesis by (simp add: findAndLock_def)
next
  case (Some e)
  then have e: "e \<in> set (fAttached c)"
    by (rule find_in_set)
  have "set (fAttached c) = insert e (set (remove1 e (fAttached c)))"
  proof
    show "set (fAttached c) \<subseteq> insert e (set (remove1 e (fAttached c)))"
    proof
      fix x
      assume "x \<in> set (fAttached c)"
      then show "x \<in> insert e (set (remove1 e (fAttached c)))"
        by (cases "x = e") (simp_all add: in_set_remove1)
    qed
    show "insert e (set (remove1 e (fAttached c))) \<subseteq> set (fAttached c)"
      using e set_remove1_subset [of e "fAttached c"] by auto
  qed
  then have "entryResource ` set (fAttached c)
               = insert (entryResource e) (entryResource ` set (remove1 e (fAttached c)))"
    by (metis image_insert)
  with Some show ?thesis
    by (simp add: findAndLock_def)
qed

lemma findAndLock_result:
  "fst (findAndLock key c) = Some r \<Longrightarrow> r \<in> entryResource ` set (fAttached c)"
  by (auto simp: findAndLock_def split: option.splits dest: find_in_set)

lemma scratchLoop_invariants:
  "fGpu (snd (scratchLoop match inFlags origWidth st ctx)) = fGpu ctx
   \<and> fDetached (fTextureCache (snd (scratchLoop match inFlags origWidth st ctx)))
       = fDetached (fTextureCache ctx)
   \<and> attachedResources (snd (scratchLoop match inFlags origWidth st ctx)) = attachedResources ctx
   \<and> (\<forall>r. fst (scratchLoop match inFlags origWidth st ctx) = Some r \<longrightarrow> r \<in> attachedResources ctx)
   \<and> (\<exists>evs. trace (snd (scratchLoop match inFlags origWidth st ctx)) = trace ctx @ evs
          \<and> (\<forall>x \<in> set evs. \<exists>k. x = CacheFindAndLock k))"
proof (induction match inFlags origWidth st ctx rule: scratchLoop.induct)
  case (1 match inFlags origWidth st ctx)
  let ?key = "ComputeKey (fst st) True"
  let ?found = "findAndLock ?key (fTextureCache ctx)"
  let ?ctx1 = "call (CacheFindAndLock ?key) (ctx\<lparr>fTextureCache := snd ?found\<rparr>)"
  have base: "fGpu ?ctx1 = fGpu ctx"
    "fDetached (fTextureCache ?ctx1) = fDetached (fTextureCache ctx)"
    "attachedResources ?ctx1 = attachedResources ctx"
    "trace ?ctx1 = trace ctx @ [CacheFindAndLock ?key]"
    by (simp_all add: attachedResources_def)
  show ?case
  proof (cases "fst ?found \<noteq> None \<or> match = kExact_ScratchTexMatch")
    case True
    then have "scratchLoop match inFlags origWidth st ctx = (fst ?found, ?ctx1)"
      by (subst scratchLoop.simps) (simp add: Let_def)
    with base show ?thesis
      by (auto simp: attachedResources_def dest: findAndLock_result)
  next
    case False
    show ?thesis
    proof (cases "relaxDesc inFlags origWidth st")
      case None
      with False have "scratchLoop match inFlags origWidth st ctx = (fst ?found, ?ctx1)"
        by (subst scratchLoop.simps) (simp add: Let_def)
      with base False show ?thesis
        by auto
    next
      case (Some st')
      with False have eq: "scratchLoop match inFlags origWidth st ctx
                             = scratchLoop match inFlags origWidth st' ?ctx1"
        by (subst scratchLoop.simps) (simp add: Let_def)
      from "1.IH" [OF refl refl refl False Some] base show ?thesis
        unfolding eq by auto
    qed
  qed
qed

lemma evict_subset: "set (evict c skip candidates es) \<subseteq> set es"
proof (induction candidates arbitrary: es)
  case Nil
  show ?case by simp
next
  case (Cons e candidates)
  have "set (remove1 e es) \<subseteq> set es"
    by (rule set_remove1_subset)
  with Cons [of es] Cons [of "remove1 e es"] show ?case
    by auto
qed


lemma lockScratchTexture_found:
  assumes "scratchLoop match (fFlags inDesc) (fWidth (binDesc match inDesc))
             (binDesc match inDesc, False, False) ctx = (Some r, ctx1)"
  shows "lockScratchTexture inDesc match ctx =
           (Some r, call (CacheDetach r) (ctx1\<lparr>fTextureCache := detach r (fTextureCache ctx1)\<rparr>))"
  unfolding lockScratchTexture_def binDesc_def [symmetric] Let_def
  by (simp add: assms)

lemma lockScratchTexture_created:
  assumes "scratchLoop match (fFlags inDesc) (fWidth (binDesc match inDesc))
             (binDesc match inDesc, False, False) ctx = (None, ctx1)"
    and "createTextureSucceeds (fGpu ctx1) (binDesc match inDesc)"
  shows "lockScratchTexture inDesc match ctx =
     (let desc = binDesc match inDesc; h = fNextHandle (fGpu ctx1);
          cache = createAndLock (ComputeKey desc True) h (textureSizeInBytes (fGpu ctx1) desc)
                    (fTextureCache ctx1)
      in (Some h,
          ctx1\<lparr>fGpu := (fGpu ctx1)\<lparr>fNextHandle := Suc h\<rparr>,
               fTextureCache := detach h cache,
               trace := trace ctx1 @ creationCalls (fGpu ctx1) desc\<rparr>))"
proof -
  have b: "(binDesc match inDesc)\<lparr>fFlags := fFlags inDesc\<rparr> = binDesc match inDesc"
    by (simp add: binDesc_def)
  show ?thesis
    unfolding lockScratchTexture_def binDesc_def [symmetric] Let_def
    by (simp add: assms b createTexture_def creationCalls_def call_def)
qed

lemma detach_simps [simp]:
  "entryResource ` set (fAttached (detach r c)) = entryResource ` set (fAttached c) - {r}"
  "set (fDetached (detach r c)) = {e \<in> set (fAttached c). entryResource e = r} \<union> set (fDetached c)"
  by (auto simp: detach_def)

text \<open>What a successful checkout leaves behind.\<close>

lemma lockScratchTexture_result:
  assumes "lockScratchTexture inDesc match ctx = (Some r, ctx')"
  shows "r \<notin> attachedResources ctx'"
    and "r \<in> attachedResources ctx \<or> r = fNextHandle (fGpu ctx)"
    and "attachedResources ctx' \<subseteq> attachedResources ctx"
    and "detachedResources ctx' \<subseteq> insert r (detachedResources ctx)"
    and "fNextHandle (fGpu ctx) \<le> fNextHandle (fGpu ctx')"
    and "r \<notin> attachedResources ctx \<longrightarrow> fNextHandle (fGpu ctx') = Suc r"
proof -
  let ?R = "scratchLoop match (fFlags inDesc) (fWidth (binDesc match inDesc))
              (binDesc match inDesc, False, False) ctx"
  obtain res ctx1 where R: "?R = (res, ctx1)"
    by (cases ?R) auto
  from scratchLoop_invariants [of match "fFlags inDesc" "fWidth (binDesc match inDesc)"
         "(binDesc match inDesc, False, False)" ctx] R
  have inv: "fGpu ctx1 = fGpu ctx"
    "fDetached (fTextureCache ctx1) = fDetached (fTextureCache ctx)"
    "attachedResources ctx1 = attachedResources ctx"
    "\<forall>x. res = Some x \<longrightarrow> x \<in> attachedResources ctx"
    by simp_all
  have "r \<notin> attachedResources ctx'
        \<and> (r \<in> attachedResources ctx \<or> r = fNextHandle (fGpu ctx))
        \<and> attachedResources ctx' \<subseteq> attachedResources ctx
        \<and> detachedResources ctx' \<subseteq> insert r (detachedResources ctx)
        \<and> fNextHandle (fGpu ctx) \<le> fNextHandle (fGpu ctx')
        \<and> (r \<notin> attachedResources ctx \<longrightarrow> fNextHandle (fGpu ctx') = Suc r)"
  proof (cases res)
    case (Some x)
    with R lockScratchTexture_found [of match inDesc ctx x ctx1] assms
    have "r = x" and c: "ctx' = call (CacheDetach r) (ctx1\<lparr>fTextureCache := detach r (fTextureCache ctx1)\<rparr>)"
      by simp_all
    with inv Some show ?thesis
      by (auto simp: attachedResources_def detachedResources_def)
  next
    case None
    with R have R': "?R = (None, ctx1)" by simp
    show ?thesis
    proof (cases "createTextureSucceeds (fGpu ctx1) (binDesc match inDesc)")
      case False
      with lockScratchTexture_creates(2) [OF R'] assms show ?thesis by simp
    next
      case True
      let ?desc = "binDesc match inDesc"
      let ?cache = "createAndLock (ComputeKey ?desc True) (fNextHandle (fGpu ctx1))
                      (textureSizeInBytes (fGpu ctx1) ?desc) (fTextureCache ctx1)"
      from lockScratchTexture_created [OF R' True] assms
      have r: "r = fNextHandle (fGpu ctx1)"
        and c: "ctx' = ctx1\<lparr>fGpu := (fGpu ctx1)\<lparr>fNextHandle := Suc r\<rparr>,
                          fTextureCache := detach r ?cache,
                          trace := trace ctx1 @ creationCalls (fGpu ctx1) ?desc\<rparr>"
        by (simp_all add: Let_def)
      have sub: "entryResource ` set (fAttached ?cache)
                   \<subseteq> insert r (entryResource ` set (fAttached (fTextureCache ctx1)))"
        using evict_subset unfolding createAndLock_def Let_def r
        by (fastforce simp: image_iff)
      have det: "fDetached ?cache = fDetached (fTextureCache ctx1)"
        by (simp add: createAndLock_def Let_def)
      have d2: "entryResource ` {e \<in> set (fAttached ?cache). entryResource e = r} \<subseteq> {r}"
        by auto
      from sub det d2 inv r show ?thesis
        unfolding c attachedResources_def detachedResources_def
        by (auto simp: image_Un)
    qed
  qed
  then show "r \<notin> attachedResources ctx'"
    and "r \<in> attachedResources ctx \<or> r = fNextHandle (fGpu ctx)"
    and "attachedResources ctx' \<subseteq> attachedResources ctx"
    and "detachedResources ctx' \<subseteq> insert r (detachedResources ctx)"
    and "fNextHandle (fGpu ctx) \<le> fNextHandle (fGpu ctx')"
    and "r \<notin> attachedResources ctx \<longrightarrow> fNextHandle (fGpu ctx') = Suc r"
    by blast+
qed

lemma handlesBelow_iff:
  "handlesBelow ctx \<longleftrightarrow>
     (\<forall>r \<in> attachedResources ctx \<union> detachedResources ctx. r < fNextHandle (fGpu ctx))"
  by (auto simp: handlesBelow_def attachedResources_def detachedResources_def)

lemma lockScratchTexture_handlesBelow:
  assumes "handlesBelow ctx" and "lockScratchTexture inDesc match ctx = (Some r, ctx')"
  shows "handlesBelow ctx'" and "r < fNextHandle (fGpu ctx')"
proof -
  note res = lockScratchTexture_result [OF assms(2)]
  have r: "r < fNextHandle (fGpu ctx')"
  proof (cases "r \<in> attachedResources ctx")
    case True
    with assms(1) have "r < fNextHandle (fGpu ctx)"
      by (simp add: handlesBelow_iff)
    with res(5) show ?thesis
      by simp
  next
    case False
    with res(6) show ?thesis by simp
  qed
  then show "r < fNextHandle (fGpu ctx')" .
  show "handlesBelow ctx'"
    unfolding handlesBelow_iff
  proof
    fix x
    assume "x \<in> attachedResources ctx' \<union> detachedResources ctx'"
    with res(3,4) have "x = r \<or> x \<in> attachedResources ctx \<union> detachedResources ctx"
      by auto
    then show "x < fNextHandle (fGpu ctx')"
    proof
      assume "x = r"
      with r show ?thesis by simp
    next
      assume "x \<in> attachedResources ctx \<union> detachedResources ctx"
      with assms(1) have "x < fNextHandle (fGpu ctx)"
        by (simp add: handlesBelow_iff)
      with res(5) show ?thesis by simp
    qed
  qed
qed


lemma lockScratchTexture_detaches_last:
  assumes "lockScratchTexture inDesc match ctx = (Some r, ctx')"
  shows "\<exists>evs. trace ctx' = trace ctx @ evs @ [CacheDetach r]"
proof -
  let ?R = "scratchLoop match (fFlags inDesc) (fWidth (binDesc match inDesc))
              (binDesc match inDesc, False, False) ctx"
  obtain res ctx1 where R: "?R = (res, ctx1)"
    by (cases ?R) auto
  from scratchLoop_invariants [of match "fFlags inDesc" "fWidth (binDesc match inDesc)"
         "(binDesc match inDesc, False, False)" ctx] R
  obtain evs where t: "trace ctx1 = trace ctx @ evs"
    by auto
  show ?thesis
  proof (cases res)
    case (Some x)
    with R lockScratchTexture_found [of match inDesc ctx x ctx1] assms t show ?thesis
      by auto
  next
    case None
    with R have R': "?R = (None, ctx1)" by simp
    show ?thesis
    proof (cases "createTextureSucceeds (fGpu ctx1) (binDesc match inDesc)")
      case False
      with lockScratchTexture_creates(2) [OF R'] assms show ?thesis by simp
    next
      case True
      from lockScratchTexture_created [OF R' True] assms t show ?thesis
        by (auto simp: Let_def creationCalls_def True)
    qed
  qed
qed

lemma checkedOutOnce_simps:
  "lockScratchTexture plainDesc kApprox_ScratchTexMatch someContext = (Some 1, checkedOutOnce)"
  "fAttached (fTextureCache checkedOutOnce) = []"
  "fNextHandle (fGpu checkedOutOnce) = 2"
  "createTextureSucceeds (fGpu checkedOutOnce) d"
proof -
  have m: "\<forall>d \<in> set (relaxationSchedule (binDesc kApprox_ScratchTexMatch plainDesc)).
             lookupMisses someContext d"
    by simp
  from scratchLoop_all_miss [OF m]
  have R: "scratchLoop kApprox_ScratchTexMatch (fFlags plainDesc)
             (fWidth (binDesc kApprox_ScratchTexMatch plainDesc))
             (binDesc kApprox_ScratchTexMatch plainDesc, False, False) someContext
           = (None, someContext\<lparr>trace := trace someContext
                 @ probeCalls (relaxationSchedule (binDesc kApprox_ScratchTexMatch plainDesc))\<rparr>)"
    by simp
  have ok: "createTextureSucceeds
              (fGpu (someContext\<lparr>trace := trace someContext
                 @ probeCalls (relaxationSchedule (binDesc kApprox_ScratchTexMatch plainDesc))\<rparr>))
              (binDesc kApprox_ScratchTexMatch plainDesc)"
    by (simp add: someGpu_def)
  note c = lockScratchTexture_created [OF R ok]
  from c show "lockScratchTexture plainDesc kApprox_ScratchTexMatch someContext = (Some 1, checkedOutOnce)"
    by (simp add: checkedOutOnce_def Let_def someGpu_def)
  from c show "fAttached (fTextureCache checkedOutOnce) = []"
    by (simp add: checkedOutOnce_def Let_def someGpu_def someContext_def newContext_def
          createAndLock_def withinBudget_def detach_def plainDesc_def
          MAX_TEXTURE_CACHE_COUNT_def MAX_TEXTURE_CACHE_BYTES_def)
  from c show "fNextHandle (fGpu checkedOutOnce) = 2"
    by (simp add: checkedOutOnce_def Let_def someGpu_def)
  from c show "createTextureSucceeds (fGpu checkedOutOnce) d"
    by (simp add: checkedOutOnce_def Let_def someGpu_def)
qed

lemma checkedOutTwice_simps:
  "lockScratchTexture plainDesc kApprox_ScratchTexMatch checkedOutOnce = (Some 2, checkedOutTwice)"
proof -
  have m: "\<forall>d \<in> set (relaxationSchedule (binDesc kApprox_ScratchTexMatch plainDesc)).
             lookupMisses checkedOutOnce d"
    by (simp add: lookupMisses_def checkedOutOnce_simps)
  from scratchLoop_all_miss [OF m]
  have R: "scratchLoop kApprox_ScratchTexMatch (fFlags plainDesc)
             (fWidth (binDesc kApprox_ScratchTexMatch plainDesc))
             (binDesc kApprox_ScratchTexMatch plainDesc, False, False) checkedOutOnce
           = (None, checkedOutOnce\<lparr>trace := trace checkedOutOnce
                 @ probeCalls (relaxationSchedule (binDesc kApprox_ScratchTexMatch plainDesc))\<rparr>)"
    by simp
  from lockScratchTexture_creates(2) [OF R]
  have "fst (lockScratchTexture plainDesc kApprox_ScratchTexMatch checkedOutOnce) = Some 2"
    by (simp add: checkedOutOnce_simps)
  then show ?thesis
    by (simp add: checkedOutTwice_def prod_eq_iff)
qed

lemma handlesBelow_someContext: "handlesBelow someContext"
  by (simp add: handlesBelow_def someContext_def newContext_def)

text \<open>
  C2. On a context whose cached handles were all handed out by the device, a resource
  that \<open>lockScratchTexture\<close> returns is not in the lookup index of the context it returns, and
  the last call of the checkout is the detach of that resource. So a second checkout with
  the same descriptor, made while the first resource is still out, returns another
  resource.
\<close>

theorem lockScratchTexture_exclusive:
  assumes "handlesBelow ctx"
    and "lockScratchTexture desc match ctx = (Some r1, ctx1)"
    and "lockScratchTexture desc match ctx1 = (Some r2, ctx2)"
  shows "r1 \<notin> attachedResources ctx1 \<and> r2 \<notin> attachedResources ctx2
         \<and> (\<exists>evs. trace ctx1 = trace ctx @ evs @ [CacheDetach r1])
         \<and> (\<exists>evs. trace ctx2 = trace ctx1 @ evs @ [CacheDetach r2])
         \<and> r1 \<noteq> r2"
proof -
  note res1 = lockScratchTexture_result [OF assms(2)]
  note res2 = lockScratchTexture_result [OF assms(3)]
  note hb = lockScratchTexture_handlesBelow [OF assms(1,2)]
  have "r1 \<noteq> r2"
  proof (cases "r2 \<in> attachedResources ctx1")
    case True
    with res1(1) show ?thesis by auto
  next
    case False
    with res2(2) have "r2 = fNextHandle (fGpu ctx1)" by simp
    with hb(2) show ?thesis by simp
  qed
  with res1(1) res2(1) lockScratchTexture_detaches_last [OF assms(2)]
    lockScratchTexture_detaches_last [OF assms(3)]
  show ?thesis by simp
qed

theorem lockScratchTexture_exclusive_witness:
  "handlesBelow someContext
   \<and> lockScratchTexture plainDesc kApprox_ScratchTexMatch someContext = (Some 1, checkedOutOnce)
   \<and> lockScratchTexture plainDesc kApprox_ScratchTexMatch checkedOutOnce = (Some 2, checkedOutTwice)
   \<and> 1 \<notin> attachedResources checkedOutOnce \<and> 2 \<notin> attachedResources checkedOutTwice
   \<and> (\<exists>evs. trace checkedOutOnce = trace someContext @ evs @ [CacheDetach 1])
   \<and> (\<exists>evs. trace checkedOutTwice = trace checkedOutOnce @ evs @ [CacheDetach 2])
   \<and> (1 :: nat) \<noteq> 2"
  using lockScratchTexture_exclusive
          [OF handlesBelow_someContext checkedOutOnce_simps(1) checkedOutTwice_simps]
    handlesBelow_someContext checkedOutOnce_simps(1) checkedOutTwice_simps
  by simp




subsection \<open>The search stops at the first hit\<close>














lemma wrap32_simps:
  "wrap32 512 = 512"
  "wrap32 (1073741824 * 2) = - 2147483648"
  by (simp_all add: wrap32_def)








subsection \<open>Pixel transfers\<close>



















end
